theory Spec2Isabelle
  imports Main "HOL-Library.Word" "HOL-Library.Signed_Division"
begin

unbundle bit_operations_syntax

section \<open>Data model of ARTPSource.cpp\<close>

text \<open>
  Machine integers are words of the width the C++ declares. Unsigned values are
  compared with \<open><\<close> on words, signed ones (\<open>int32_t\<close>, \<open>int64_t\<close>) with
  \<open><s\<close> and \<open>\<le>s\<close>; arithmetic wraps around in both readings.
\<close>

type_synonym u8 = "8 word"
type_synonym u32 = "32 word"
type_synonym i32 = "32 word"
type_synonym u64 = "64 word"
type_synonym i64 = "64 word"

text \<open>
  Modelled from the spec: the class ABuffer is declared outside this file. The spec
  gives a buffer a known capacity and a current length, and a packet its metadata;
  the model has what this file reads and writes: the bytes of the valid range
  (\<open>data()[0 .. size())\<close>), the capacity, the integer slot read by \<open>int32Data()\<close>
  and written by \<open>setInt32Data\<close>, and the \<open>rtp-time\<close> entry of the meta message
  (absent when \<open>findInt32\<close> would fail). Every \<open>setRange\<close> of this file keeps the
  range offset, so the offset is not a field.
\<close>

record ABuffer =
  capacity :: nat
  bytes :: "u8 list"
  int32Data :: u32
  meta_rtp_time :: "i32 option"

text \<open>The assembler classes the constructor chooses from; AMR carries \<open>isWide\<close>.\<close>

datatype assembler =
    AAVCAssembler
  | AHEVCAssembler
  | AMPEG4AudioAssembler
  | AH263Assembler
  | AAMRAssembler bool
  | AMPEG4ElementaryAssembler
  | ARawAudioAssembler
  | AMPEG2TSAssembler

text \<open>
  Modelled from the spec: the class QualManager is declared outside this file. The
  spec gives it a target bitrate and an optional range \<open>[min_bitrate, max_bitrate]\<close>;
  only \<open>mTargetBitrate\<close> is read here.
\<close>

record QualManager =
  mTargetBitrate :: i32
  mMinBitrate :: i32
  mMaxBitrate :: i32

text \<open>
  Modelled from the spec: the class declaration (ARTPSource.h) is not part of the
  sources, so the widths of the members, listed in the constructor's order, are
  those of the spec's data model and of the casts in this file: sequence numbers
  and expected counts are \<open>uint32_t\<close>, the two received counters \<open>int32_t\<close> (they
  may go negative), times \<open>int64_t\<close>, the NTP time \<open>uint64_t\<close>, the FIR sequence
  number \<open>uint8_t\<close>. \<open>kSourceID\<close> is the file's static variable, which \<open>setSelfID\<close>
  overwrites; it is carried in the state.
\<close>

record ARTPSource =
  mFirstSeqNumber :: u32
  mFirstRtpTime :: u32
  mFirstSysTime :: i64
  mClockRate :: i32
  mID :: u32
  mHighestSeqNumber :: u32
  mPrevExpected :: u32
  mBaseSeqNumber :: u32
  mNumBuffersReceived :: i32
  mPrevNumBuffersReceived :: i32
  mQueue :: "ABuffer list"
  mAssembler :: "assembler option"
  mLastNTPTime :: u64
  mLastNTPTimeUpdateUs :: i64
  mIssueFIRRequests :: bool
  mLastFIRRequestUs :: i64
  mNextFIRSeqNo :: u8
  mQualManager :: QualManager
  kSourceID :: u32

text \<open>
  \<open>CHECK\<close> and \<open>TRESPASS\<close> abort the process; a shift by the full width of the
  operand is undefined in C++. Each is a result of its own.
\<close>

datatype error = CheckFailed | Trespass | UndefinedShift

text \<open>
  What the file calls and does not define, taken as parameters. \<open>consumed a q b\<close>
  says whether assembler \<open>a\<close>, handed the queue \<open>q\<close> by \<open>onPacketReceived\<close>, removes
  entry \<open>b\<close>. \<open>setTargetBitrate\<close> and \<open>setMinMaxBitrate\<close> are QualManager's
  methods; \<open>dlsr\<close> is the floating-point conversion of the elapsed microseconds
  to Q16.16 seconds in the receiver report.
\<close>

record externals =
  consumed :: "assembler \<Rightarrow> ABuffer list \<Rightarrow> ABuffer \<Rightarrow> bool"
  setTargetBitrate :: "u8 \<Rightarrow> QualManager \<Rightarrow> QualManager"
  setMinMaxBitrate :: "i32 \<Rightarrow> i32 \<Rightarrow> QualManager \<Rightarrow> QualManager"
  dlsr :: "i64 \<Rightarrow> u32"

section \<open>The constructor\<close>

definition to_lower :: "char \<Rightarrow> char" where
  "to_lower c =
     (if 65 \<le> (of_char c :: nat) \<and> (of_char c :: nat) \<le> 90
      then char_of ((of_char c :: nat) + 32) else c)"

text \<open>\<open>strncmp(s, lit, n) == 0\<close> and \<open>strncasecmp(s, lit, n) == 0\<close> on NUL-free strings.\<close>

definition strncmp_eq :: "string \<Rightarrow> string \<Rightarrow> nat \<Rightarrow> bool" where
  "strncmp_eq s lit n = (take n s = take n lit)"

definition strncasecmp_eq :: "string \<Rightarrow> string \<Rightarrow> nat \<Rightarrow> bool" where
  "strncasecmp_eq s lit n = (map to_lower (take n s) = map to_lower (take n lit))"

text \<open>
  The dispatch on the format description: the assembler and whether FIR requests
  are issued, or \<open>TRESPASS\<close>. \<open>rawSupports\<close> is the answer of
  \<open>ARawAudioAssembler::Supports\<close>.
\<close>

definition select_assembler :: "string \<Rightarrow> bool \<Rightarrow> error + (assembler \<times> bool)" where
  "select_assembler desc rawSupports =
     (if strncmp_eq desc ''H264/'' 5 then Inr (AAVCAssembler, True)
      else if strncmp_eq desc ''H265/'' 5 then Inr (AHEVCAssembler, True)
      else if strncmp_eq desc ''MP4A-LATM/'' 10 then Inr (AMPEG4AudioAssembler, False)
      else if strncmp_eq desc ''H263-1998/'' 10 \<or> strncmp_eq desc ''H263-2000/'' 10
        then Inr (AH263Assembler, True)
      else if strncmp_eq desc ''AMR/'' 4 then Inr (AAMRAssembler False, False)
      else if strncmp_eq desc ''AMR-WB/'' 7 then Inr (AAMRAssembler True, False)
      else if strncmp_eq desc ''MP4V-ES/'' 8 \<or> strncasecmp_eq desc ''mpeg4-generic/'' 14
        then Inr (AMPEG4ElementaryAssembler, True)
      else if rawSupports then Inr (ARawAudioAssembler, False)
      else if strncasecmp_eq desc ''MP2T/'' 5 then Inr (AMPEG2TSAssembler, False)
      else Inl Trespass)"

text \<open>
  The constructor. \<open>seed\<close> is the value \<open>(rand() * 256.0) / RAND_MAX\<close> converts to,
  \<open>initCheck\<close> the answer of the new assembler's \<open>initCheck()\<close>, \<open>qm\<close> the freshly
  constructed QualManager and \<open>self\<close> the current value of \<open>kSourceID\<close>.
\<close>

definition new_ARTPSource ::
  "u32 \<Rightarrow> string \<Rightarrow> bool \<Rightarrow> bool \<Rightarrow> u8 \<Rightarrow> QualManager \<Rightarrow> u32 \<Rightarrow> error + ARTPSource" where
  "new_ARTPSource ident desc rawSupports initCheck seed qm self =
     (case select_assembler desc rawSupports of
        Inl e \<Rightarrow> Inl e
      | Inr (a, fir) \<Rightarrow>
          Inr \<lparr> mFirstSeqNumber = 0, mFirstRtpTime = 0, mFirstSysTime = 0, mClockRate = 0,
                mID = ident, mHighestSeqNumber = 0, mPrevExpected = 0, mBaseSeqNumber = 0,
                mNumBuffersReceived = 0, mPrevNumBuffersReceived = 0,
                mQueue = [],
                mAssembler = (if initCheck then Some a else None),
                mLastNTPTime = 0, mLastNTPTimeUpdateUs = 0,
                mIssueFIRRequests = fir, mLastFIRRequestUs = - 1,
                mNextFIRSeqNo = seed, mQualManager = qm, kSourceID = self \<rparr>)"

section \<open>Packet ingestion\<close>

definition AbsDiff :: "u32 \<Rightarrow> u32 \<Rightarrow> u32" where
  "AbsDiff seq1 seq2 = (if seq1 > seq2 then seq1 - seq2 else seq2 - seq1)"

text \<open>
  The three candidates of \<open>queuePacket\<close> and the choice among them: \<open>highest\<close> is
  \<open>mHighestSeqNumber\<close>, \<open>seqNum\<close> the value read from the buffer.
\<close>

definition extend_seq :: "u32 \<Rightarrow> u32 \<Rightarrow> u32" where
  "extend_seq highest seqNum =
     (let seq1 = seqNum OR (highest AND 0xffff0000);
          seq2 = seqNum OR push_bit 16 (drop_bit 16 highest + 1);
          seq3 = seqNum OR push_bit 16 ((drop_bit 16 highest OR 0x10000) - 1);
          diff1 = AbsDiff seq1 highest;
          diff2 = AbsDiff seq2 highest;
          diff3 = AbsDiff seq3 highest
      in if diff1 < diff2 then (if diff1 < diff3 then seq1 else seq3)
         else if diff2 < diff3 then seq2
         else seq3)"

text \<open>
  \<open>queuePacket\<close>: the result is the boolean it returns, the buffer as it leaves
  (its integer slot rewritten) and the new state; \<open>nowUs\<close> is what
  \<open>ALooper::GetNowUs()\<close> returns if it is called. The \<open>while\<close> loop stops at the
  first queue entry that is not below \<open>seqNum\<close>: \<open>takeWhile\<close> is the part it walks
  over, \<open>dropWhile\<close> the part from the iterator on.
\<close>

definition queuePacket :: "ARTPSource \<Rightarrow> ABuffer \<Rightarrow> i64 \<Rightarrow> error + (bool \<times> ABuffer \<times> ARTPSource)" where
  "queuePacket s buffer nowUs =
     (let seqNum = int32Data buffer;
          s1 = s\<lparr>mNumBuffersReceived := mNumBuffersReceived s + 1\<rparr>
      in if mNumBuffersReceived s = 0 \<and> mFirstSysTime s = 0 then
           (case meta_rtp_time buffer of
              None \<Rightarrow> Inl CheckFailed
            | Some firstRtpTime \<Rightarrow>
                Inr (True, buffer,
                     s1\<lparr>mFirstSysTime := nowUs,
                        mHighestSeqNumber := seqNum,
                        mBaseSeqNumber := seqNum,
                        mFirstRtpTime := firstRtpTime,
                        mClockRate := 90000,
                        mQueue := mQueue s @ [buffer]\<rparr>))
         else
           (let seqNum' = extend_seq (mHighestSeqNumber s) seqNum;
                s2 = (if seqNum' > mHighestSeqNumber s
                      then s1\<lparr>mHighestSeqNumber := seqNum'\<rparr> else s1);
                buffer' = buffer\<lparr>int32Data := seqNum'\<rparr>;
                before = takeWhile (\<lambda>b. int32Data b < seqNum') (mQueue s);
                rest = dropWhile (\<lambda>b. int32Data b < seqNum') (mQueue s)
            in if rest \<noteq> [] \<and> int32Data (hd rest) = seqNum'
               then Inr (False, buffer', s2)
               else Inr (True, buffer', s2\<lparr>mQueue := before @ buffer' # rest\<rparr>)))"

text \<open>
  Modelled from the spec: \<open>ARTPAssembler::onPacketReceived\<close> is not in this file.
  The spec says the assembler is handed the queue to drain and removes entries as
  it consumes them; which ones is the parameter \<open>consumed\<close>.
\<close>

definition onPacketReceived :: "externals \<Rightarrow> assembler \<Rightarrow> ABuffer list \<Rightarrow> ABuffer list" where
  "onPacketReceived ext a q = filter (\<lambda>b. \<not> consumed ext a q b) q"

definition processRTPPacket ::
  "externals \<Rightarrow> ARTPSource \<Rightarrow> ABuffer \<Rightarrow> i64 \<Rightarrow> error + (ABuffer \<times> ARTPSource)" where
  "processRTPPacket ext s buffer nowUs =
     (case mAssembler s of
        None \<Rightarrow> Inr (buffer, s)
      | Some a \<Rightarrow>
          (case queuePacket s buffer nowUs of
             Inl e \<Rightarrow> Inl e
           | Inr (ok, buffer', s') \<Rightarrow>
               Inr (buffer',
                    if ok then s'\<lparr>mQueue := onPacketReceived ext a (mQueue s')\<rparr> else s')))"

text \<open>\<open>timeUpdate\<close>; the message it posts is the second component.\<close>

record time_update_msg =
  msg_rtp_time :: u32
  msg_ntp_time :: u64

definition timeUpdate :: "ARTPSource \<Rightarrow> u32 \<Rightarrow> u64 \<Rightarrow> i64 \<Rightarrow> ARTPSource \<times> time_update_msg" where
  "timeUpdate s rtpTime ntpTime nowUs =
     (s\<lparr>mLastNTPTime := ntpTime, mLastNTPTimeUpdateUs := nowUs\<rparr>,
      \<lparr>msg_rtp_time = rtpTime, msg_ntp_time = ntpTime\<rparr>)"

definition isNeedToReport :: "ARTPSource \<Rightarrow> bool" where
  "isNeedToReport s =
     (0 <s (scast (mNumBuffersReceived s - mPrevNumBuffersReceived s) :: i64))"

definition noticeAbandonBuffer :: "ARTPSource \<Rightarrow> i32 \<Rightarrow> ARTPSource" where
  "noticeAbandonBuffer s cnt = s\<lparr>mNumBuffersReceived := mNumBuffersReceived s - cnt\<rparr>"

definition setSelfID :: "ARTPSource \<Rightarrow> u32 \<Rightarrow> ARTPSource" where
  "setSelfID s selfID = s\<lparr>kSourceID := selfID\<rparr>"

definition setMinMaxBitrate_src :: "externals \<Rightarrow> ARTPSource \<Rightarrow> i32 \<Rightarrow> i32 \<Rightarrow> ARTPSource" where
  "setMinMaxBitrate_src ext s mn mx =
     s\<lparr>mQualManager := setMinMaxBitrate ext mn mx (mQualManager s)\<rparr>"

definition byeReceived :: "ARTPSource \<Rightarrow> ARTPSource" where
  "byeReceived s = s"

section \<open>RTCP report building\<close>

text \<open>
  The four bytes the code stores for a 32-bit value \<open>x\<close>:
  \<open>x >> 24\<close>, \<open>(x >> 16) & 0xff\<close>, \<open>(x >> 8) & 0xff\<close>, \<open>x & 0xff\<close>, each
  converted to \<open>uint8_t\<close>.
\<close>

definition be32 :: "u32 \<Rightarrow> u8 list" where
  "be32 x = [ucast (drop_bit 24 x), ucast (drop_bit 16 x AND 0xff),
             ucast (drop_bit 8 x AND 0xff), ucast (x AND 0xff)]"

text \<open>\<open>buffer->setRange(buffer->offset(), buffer->size() + n)\<close> after \<open>n\<close> bytes were stored.\<close>

definition append_block :: "ABuffer \<Rightarrow> u8 list \<Rightarrow> ABuffer" where
  "append_block buffer block = buffer\<lparr>bytes := bytes buffer @ block\<rparr>"

definition fir_block :: "ARTPSource \<Rightarrow> u8 list" where
  "fir_block s =
     [0x80 OR 4, 206, 0, 4] @ be32 (kSourceID s) @ [0, 0, 0, 0] @ be32 (mID s)
     @ [mNextFIRSeqNo s, 0, 0, 0]"

definition addFIR :: "ARTPSource \<Rightarrow> ABuffer \<Rightarrow> i64 \<Rightarrow> ABuffer \<times> ARTPSource" where
  "addFIR s buffer nowUs =
     (if \<not> mIssueFIRRequests s then (buffer, s)
      else if 0 \<le>s mLastFIRRequestUs s \<and> nowUs <s mLastFIRRequestUs s + 5000000
        then (buffer, s)
      else
        (let s1 = s\<lparr>mLastFIRRequestUs := nowUs\<rparr>
         in if length (bytes buffer) + 20 > capacity buffer then (buffer, s1)
            else (append_block buffer (fir_block s1),
                  s1\<lparr>mNextFIRSeqNo := mNextFIRSeqNo s1 + 1\<rparr>)))"

text \<open>
  The loss statistics of \<open>addReceiverReport\<close>. \<open>expected - mPrevExpected\<close> is an
  unsigned 32-bit difference widened to \<open>int64_t\<close>; the difference of the two
  received counters is a signed 32-bit one, sign-extended.
\<close>

definition rr_expected :: "ARTPSource \<Rightarrow> u32" where
  "rr_expected s = mHighestSeqNumber s - mBaseSeqNumber s + 1"

definition intervalExpected :: "ARTPSource \<Rightarrow> i64" where
  "intervalExpected s = ucast (rr_expected s - mPrevExpected s)"

definition intervalReceived :: "ARTPSource \<Rightarrow> i64" where
  "intervalReceived s = scast (mNumBuffersReceived s - mPrevNumBuffersReceived s)"

definition intervalPacketLost :: "ARTPSource \<Rightarrow> i64" where
  "intervalPacketLost s = intervalExpected s - intervalReceived s"

text \<open>Division of \<open>int64_t\<close> values, truncating towards zero.\<close>

definition sdiv64 :: "i64 \<Rightarrow> i64 \<Rightarrow> i64" where
  "sdiv64 a b = word_of_int (sint a sdiv sint b)"

definition rr_fraction :: "ARTPSource \<Rightarrow> u8" where
  "rr_fraction s =
     (if 0 <s intervalExpected s \<and> 0 <s intervalPacketLost s
      then ucast (sdiv64 (push_bit 8 (intervalPacketLost s)) (intervalExpected s))
      else 0)"

definition cumulativePacketLost :: "ARTPSource \<Rightarrow> i32" where
  "cumulativePacketLost s = rr_expected s - mNumBuffersReceived s"

definition rr_LSR :: "ARTPSource \<Rightarrow> u32" where
  "rr_LSR s =
     (if mLastNTPTime s \<noteq> 0 then ucast (drop_bit 16 (mLastNTPTime s) AND 0xffffffff) else 0)"

definition rr_DLSR :: "externals \<Rightarrow> ARTPSource \<Rightarrow> i64 \<Rightarrow> u32" where
  "rr_DLSR ext s nowUs =
     (if mLastNTPTime s \<noteq> 0 then dlsr ext (nowUs - mLastNTPTimeUpdateUs s) else 0)"

definition rr_block :: "externals \<Rightarrow> ARTPSource \<Rightarrow> i64 \<Rightarrow> u8 list" where
  "rr_block ext s nowUs =
     [0x80 OR 1, 201, 0, 7] @ be32 (kSourceID s) @ be32 (mID s)
     @ [rr_fraction s,
        ucast (signed_drop_bit 16 (cumulativePacketLost s)),
        ucast (signed_drop_bit 8 (cumulativePacketLost s) AND 0xff),
        ucast (cumulativePacketLost s AND 0xff)]
     @ be32 (mHighestSeqNumber s)
     @ [0, 0, 0, 0]
     @ be32 (rr_LSR s)
     @ be32 (rr_DLSR ext s nowUs)"

definition addReceiverReport ::
  "externals \<Rightarrow> ARTPSource \<Rightarrow> ABuffer \<Rightarrow> i64 \<Rightarrow> ABuffer \<times> ARTPSource" where
  "addReceiverReport ext s buffer nowUs =
     (if length (bytes buffer) + 32 > capacity buffer then (buffer, s)
      else (append_block buffer (rr_block ext s nowUs),
            s\<lparr>mQualManager := setTargetBitrate ext (rr_fraction s) (mQualManager s),
              mPrevExpected := rr_expected s,
              mPrevNumBuffersReceived := mNumBuffersReceived s\<rparr>))"

text \<open>
  The exponent loop of \<open>addTMMBR\<close>:
  \<open>for (exp = 4; exp < 32; exp++) if (((targetBitrate >> exp) & 0x01) != 0) break;\<close>
  started at \<open>exp\<close>. \<open>targetBitrate\<close> is an \<open>int32_t\<close>, so the shift is arithmetic.
\<close>

function tmmbr_exp_from :: "i32 \<Rightarrow> nat \<Rightarrow> nat" where
  "tmmbr_exp_from targetBitrate exp =
     (if exp < 32
      then (if signed_drop_bit exp targetBitrate AND 1 \<noteq> 0 then exp
            else tmmbr_exp_from targetBitrate (exp + 1))
      else exp)"
  by pat_completeness auto
termination
  by (relation "measure (\<lambda>(t, e). 32 - e)") auto

declare tmmbr_exp_from.simps [simp del]

definition tmmbr_exp :: "i32 \<Rightarrow> nat" where
  "tmmbr_exp targetBitrate = tmmbr_exp_from targetBitrate 4"

text \<open>Bytes 16 to 19 of the TMMBR block, from \<open>exp\<close> and \<open>mantissa\<close> (both \<open>int32_t\<close>).\<close>

definition tmmbr_tail :: "i32 \<Rightarrow> i32 \<Rightarrow> u8 list" where
  "tmmbr_tail exp mantissa =
     [ucast ((push_bit 2 exp AND 0xfc) OR signed_drop_bit 15 (mantissa AND 0x18000)),
      ucast (signed_drop_bit 7 (mantissa AND 0x07f80)),
      ucast (push_bit 1 (mantissa AND 0x0007f)),
      40]"

definition tmmbr_block :: "ARTPSource \<Rightarrow> i32 \<Rightarrow> i32 \<Rightarrow> u8 list" where
  "tmmbr_block s exp mantissa =
     [0x80 OR 3, 205, 0, 4] @ be32 (kSourceID s) @ [0, 0, 0, 0] @ be32 (mID s)
     @ tmmbr_tail exp mantissa"

text \<open>
  \<open>addTMMBR\<close>. When the loop runs to 32 the shift \<open>targetBitrate >> exp\<close> is by the
  full width of the operand, which C++ leaves undefined.
\<close>

definition addTMMBR :: "ARTPSource \<Rightarrow> ABuffer \<Rightarrow> error + (ABuffer \<times> ARTPSource)" where
  "addTMMBR s buffer =
     (if length (bytes buffer) + 32 > capacity buffer then Inr (buffer, s)
      else if mTargetBitrate (mQualManager s) \<le>s 0 then Inr (buffer, s)
      else
        (let targetBitrate = mTargetBitrate (mQualManager s);
             exp = tmmbr_exp targetBitrate
         in if exp \<ge> 32 then Inl UndefinedShift
            else Inr (append_block buffer
                        (tmmbr_block s (of_nat exp) (signed_drop_bit exp targetBitrate)),
                      s)))"

section \<open>Sequences of calls\<close>

datatype call =
    ProcessRTPPacket ABuffer i64
  | TimeUpdate u32 u64 i64
  | ByeReceived
  | AddFIR ABuffer i64
  | AddReceiverReport ABuffer i64
  | AddTMMBR ABuffer
  | SetSelfID u32
  | SetMinMaxBitrate i32 i32
  | NoticeAbandonBuffer i32

text \<open>One call on a source; only the new state is kept.\<close>

fun step :: "externals \<Rightarrow> ARTPSource \<Rightarrow> call \<Rightarrow> error + ARTPSource" where
  "step ext s (ProcessRTPPacket buffer nowUs) = map_sum id snd (processRTPPacket ext s buffer nowUs)"
| "step ext s (TimeUpdate rtpTime ntpTime nowUs) = Inr (fst (timeUpdate s rtpTime ntpTime nowUs))"
| "step ext s ByeReceived = Inr (byeReceived s)"
| "step ext s (AddFIR buffer nowUs) = Inr (snd (addFIR s buffer nowUs))"
| "step ext s (AddReceiverReport buffer nowUs) = Inr (snd (addReceiverReport ext s buffer nowUs))"
| "step ext s (AddTMMBR buffer) = map_sum id snd (addTMMBR s buffer)"
| "step ext s (SetSelfID selfID) = Inr (setSelfID s selfID)"
| "step ext s (SetMinMaxBitrate mn mx) = Inr (setMinMaxBitrate_src ext s mn mx)"
| "step ext s (NoticeAbandonBuffer cnt) = Inr (noticeAbandonBuffer s cnt)"

fun run :: "externals \<Rightarrow> ARTPSource \<Rightarrow> call list \<Rightarrow> error + ARTPSource" where
  "run ext s [] = Inr s"
| "run ext s (c # cs) = (case step ext s c of Inl e \<Rightarrow> Inl e | Inr s' \<Rightarrow> run ext s' cs)"

text \<open>
  Feeding packets one after the other to \<open>processRTPPacket\<close>: the buffers as they
  leave, in arrival order, and the final state.
\<close>

fun feed :: "externals \<Rightarrow> ARTPSource \<Rightarrow> (ABuffer \<times> i64) list \<Rightarrow> error + (ABuffer list \<times> ARTPSource)" where
  "feed ext s [] = Inr ([], s)"
| "feed ext s ((buffer, nowUs) # ps) =
     (case processRTPPacket ext s buffer nowUs of
        Inl e \<Rightarrow> Inl e
      | Inr (buffer', s') \<Rightarrow>
          (case feed ext s' ps of
             Inl e \<Rightarrow> Inl e
           | Inr (bs, s'') \<Rightarrow> Inr (buffer' # bs, s'')))"

section \<open>Definitions for the statements and proofs\<close>

text \<open>
  The distance of two natural numbers, and the candidate choice of \<open>extend_seq\<close>
  on natural numbers; both serve the proofs about \<open>extend_seq\<close> only.
\<close>

definition dist_nat :: "nat \<Rightarrow> nat \<Rightarrow> nat" where
  "dist_nat a b = (if a > b then a - b else b - a)"

definition ext_nat :: "nat \<Rightarrow> nat \<Rightarrow> nat" where
  "ext_nat b w = (let H = b div 65536; 
      s1 = w + 65536 * H; 
      s2 = w + 65536 * ((H + 1) mod 65536);
      s3 = w + 65536 * ((H + 65535) mod 65536);
      d1 = dist_nat s1 b; d2 = dist_nat s2 b; d3 = dist_nat s3 b
    in if d1 < d2 then (if d1 < d3 then s1 else s3) else if d2 < d3 then s2 else s3)"

text \<open>Concrete collaborators and packets, for the closed instances below.\<close>

definition ext0 :: externals where
  "ext0 = \<lparr>consumed = (\<lambda>a q b. False), setTargetBitrate = (\<lambda>f q. q),
           setMinMaxBitrate = (\<lambda>mn mx q. q), dlsr = (\<lambda>d. 0)\<rparr>"

definition qm0 :: QualManager where
  "qm0 = \<lparr>mTargetBitrate = 0, mMinBitrate = 0, mMaxBitrate = 0\<rparr>"

definition pkt :: "u32 \<Rightarrow> ABuffer" where
  "pkt n = \<lparr>capacity = 0, bytes = [], int32Data = n, meta_rtp_time = Some 0\<rparr>"

text \<open>The extended sequence numbers of the queue entries, front first.\<close>

definition queue_keys :: "ABuffer list \<Rightarrow> u32 list" where
  "queue_keys q = map int32Data q"

definition ascending :: "u32 list \<Rightarrow> bool" where
  "ascending ks = sorted_wrt (<) ks"

text \<open>The source \<open>new_ARTPSource 7 ''H264/90000'' False True 0 qm0 0xdeadbeef\<close> builds.\<close>

definition src0 :: ARTPSource where
  "src0 = \<lparr> mFirstSeqNumber = 0, mFirstRtpTime = 0, mFirstSysTime = 0, mClockRate = 0,
                mID = 7, mHighestSeqNumber = 0, mPrevExpected = 0, mBaseSeqNumber = 0,
                mNumBuffersReceived = 0, mPrevNumBuffersReceived = 0,
                mQueue = [],
                mAssembler = Some AAVCAssembler,
                mLastNTPTime = 0, mLastNTPTimeUpdateUs = 0,
                mIssueFIRRequests = True, mLastFIRRequestUs = - 1,
                mNextFIRSeqNo = 0, mQualManager = qm0, kSourceID = 0xdeadbeef \<rparr>"

text \<open>The 16 bits of a 32-bit sequence number that go over the wire.\<close>

definition wire :: "u32 \<Rightarrow> u32" where
  "wire t = t AND 0xffff"

text \<open>
  An arrival order \<open>ts\<close> of original 32-bit sequence numbers stays within the
  window when each one is less than 32768 away from the highest one that arrived
  before it; \<open>h\<close> is the highest so far.
\<close>

fun in_window :: "u32 \<Rightarrow> u32 list \<Rightarrow> bool" where
  "in_window h [] = True"
| "in_window h (t # ts) = (AbsDiff t h < 0x8000 \<and> in_window (max h t) ts)"

text \<open>The numbers the buffers carry when they leave \<open>processRTPPacket\<close>, in arrival order.\<close>

definition assigned :: "externals \<Rightarrow> ARTPSource \<Rightarrow> (ABuffer \<times> i64) list \<Rightarrow> error + u32 list" where
  "assigned ext s ps = map_sum id (\<lambda>r. map int32Data (fst r)) (feed ext s ps)"

text \<open>The source \<open>src0\<close> after the packets 5 and 7.\<close>

definition src57 :: ARTPSource where
  "src57 = src0\<lparr>mFirstSysTime := 1000, mClockRate := 90000, mHighestSeqNumber := 7,
                 mBaseSeqNumber := 5, mNumBuffersReceived := 2,
                 mQueue := [pkt 5, pkt 7]\<rparr>"

text \<open>The source \<open>src0\<close> after packet 5 and the notice that one buffer was abandoned.\<close>

definition src5a :: ARTPSource where
  "src5a = src0\<lparr>mFirstSysTime := 1000, mClockRate := 90000, mHighestSeqNumber := 5,
                 mBaseSeqNumber := 5, mNumBuffersReceived := 0, mQueue := [pkt 5]\<rparr>"

text \<open>A buffer of capacity 64 for the reports, empty.\<close>

definition out64 :: ABuffer where
  "out64 = \<lparr>capacity = 64, bytes = [], int32Data = 0, meta_rtp_time = None\<rparr>"

text \<open>
  Reading the loss fields back from a receiver report block, as the spec lays the
  block out: the fraction is byte 12, the cumulative count the 24-bit two's
  complement number in bytes 13 to 15, most significant byte first.
\<close>

definition decode_fraction_lost :: "u8 list \<Rightarrow> u8" where
  "decode_fraction_lost blk = blk ! 12"

definition decode_cumulative_lost :: "u8 list \<Rightarrow> i32" where
  "decode_cumulative_lost blk =
     signed_take_bit 23 (push_bit 16 (ucast (blk ! 13)) OR push_bit 8 (ucast (blk ! 14))
                         OR ucast (blk ! 15))"

text \<open>A first report with base 100, highest 109 and 8 buffers received.\<close>

definition src_rr :: ARTPSource where
  "src_rr = src0\<lparr>mFirstSysTime := 1000, mClockRate := 90000, mHighestSeqNumber := 109,
                  mBaseSeqNumber := 100, mNumBuffersReceived := 8\<rparr>"

text \<open>The source after the packets 100 and 109, both then abandoned.\<close>

definition src_lost :: ARTPSource where
  "src_lost = src0\<lparr>mFirstSysTime := 1000, mClockRate := 90000, mHighestSeqNumber := 109,
                    mBaseSeqNumber := 100, mNumBuffersReceived := 0,
                    mQueue := [pkt 100, pkt 109]\<rparr>"

text \<open>
  A clock reading leaves room for the five seconds of the FIR gate when adding
  5000000 to it does not overflow \<open>int64_t\<close>; a call does when it is not
  \<open>addFIR\<close> or its clock reading does.
\<close>

definition clock_in_range :: "i64 \<Rightarrow> bool" where
  "clock_in_range t = (sint t < 9223372036849775808)"

fun call_clock_in_range :: "call \<Rightarrow> bool" where
  "call_clock_in_range (AddFIR buffer nowUs) = clock_in_range nowUs"
| "call_clock_in_range c = True"

text \<open>What the gate of \<open>addFIR\<close> keeps once a request was made at \<open>t1\<close>.\<close>

definition fir_gate_inv :: "int \<Rightarrow> ARTPSource \<Rightarrow> bool" where
  "fir_gate_inv t1 s =
     (0 \<le> sint (mLastFIRRequestUs s) \<and> t1 \<le> sint (mLastFIRRequestUs s)
      \<and> clock_in_range (mLastFIRRequestUs s))"

text \<open>The source \<open>src0\<close> after a FIR request at 1000000.\<close>

definition src_fir1 :: ARTPSource where
  "src_fir1 = src0\<lparr>mLastFIRRequestUs := 1000000, mNextFIRSeqNo := 1\<rparr>"

text \<open>The two gates of \<open>addFIR\<close> that come before its capacity check.\<close>

definition fir_gates_pass :: "ARTPSource \<Rightarrow> i64 \<Rightarrow> bool" where
  "fir_gates_pass s nowUs =
     (mIssueFIRRequests s
      \<and> \<not> (0 \<le>s mLastFIRRequestUs s \<and> nowUs <s mLastFIRRequestUs s + 5000000))"

text \<open>A buffer with room for 10 bytes, and one with room for 24, both empty.\<close>

definition out10 :: ABuffer where
  "out10 = \<lparr>capacity = 10, bytes = [], int32Data = 0, meta_rtp_time = None\<rparr>"

definition out24 :: ABuffer where
  "out24 = \<lparr>capacity = 24, bytes = [], int32Data = 0, meta_rtp_time = None\<rparr>"

text \<open>The source \<open>src0\<close> with a target bitrate of 256000.\<close>

definition src_tm :: ARTPSource where
  "src_tm = src0\<lparr>mQualManager := qm0\<lparr>mTargetBitrate := 256000\<rparr>\<rparr>"




text \<open>
  The NTP time a source holds after the calls \<open>cs\<close>, when it held \<open>n\<close> before:
  that of the last \<open>timeUpdate\<close> among them.
\<close>

fun last_ntp :: "u64 \<Rightarrow> call list \<Rightarrow> u64" where
  "last_ntp n [] = n"
| "last_ntp n (TimeUpdate rtpTime ntpTime nowUs # cs) = last_ntp ntpTime cs"
| "last_ntp n (c # cs) = last_ntp n cs"

text \<open>A 32-bit field read back from four bytes, most significant first.\<close>

definition decode_be32 :: "u8 list \<Rightarrow> u32" where
  "decode_be32 bs =
     push_bit 24 (ucast (bs ! 0)) OR push_bit 16 (ucast (bs ! 1))
     OR push_bit 8 (ucast (bs ! 2)) OR ucast (bs ! 3)"

text \<open>Bytes 24 to 27 of a receiver report block.\<close>

definition lsr_field :: "u8 list \<Rightarrow> u8 list" where
  "lsr_field blk = take 4 (drop 24 blk)"

text \<open>The source \<open>src0\<close> after a time update with NTP time \<open>0x0123456789ABCDEF\<close>.\<close>

definition src_ntp :: ARTPSource where
  "src_ntp = src0\<lparr>mLastNTPTime := 0x0123456789ABCDEF, mLastNTPTimeUpdateUs := 1000\<rparr>"

text \<open>
  The conditions under which the source is driven. \<open>noticeAbandonBuffer\<close> reports
  buffers that were counted before and were discarded, so its argument lies
  between 0 and the current count. The clock read for a packet is not 0:
  \<open>queuePacket\<close> takes \<open>mFirstSysTime = 0\<close> to mean that no packet has arrived yet.
  The other calls carry no condition.
\<close>

fun call_in_contract :: "ARTPSource \<Rightarrow> call \<Rightarrow> bool" where
  "call_in_contract s (ProcessRTPPacket buffer nowUs) = (nowUs \<noteq> 0)"
| "call_in_contract s (NoticeAbandonBuffer cnt) = (0 \<le>s cnt \<and> cnt \<le>s mNumBuffersReceived s)"
| "call_in_contract s c = True"

text \<open>A sequence of calls in which every call meets these conditions in the state it finds.\<close>

fun in_contract :: "externals \<Rightarrow> ARTPSource \<Rightarrow> call list \<Rightarrow> bool" where
  "in_contract ext s [] = True"
| "in_contract ext s (c # cs) =
     (call_in_contract s c \<and> (case step ext s c of Inl e \<Rightarrow> True | Inr s' \<Rightarrow> in_contract ext s' cs))"

text \<open>
  What holds of a source between calls: the queue is strictly ascending, and as
  long as the first-packet branch of \<open>queuePacket\<close> has not stored a clock reading
  nothing has been counted or queued and \<open>mHighestSeqNumber\<close> is still 0.
\<close>

definition baseline_inv :: "ARTPSource \<Rightarrow> bool" where
  "baseline_inv s = (ascending (queue_keys (mQueue s))
     \<and> (mFirstSysTime s = 0 \<longrightarrow> mNumBuffersReceived s = 0 \<and> mHighestSeqNumber s = 0 \<and> mQueue s = []))"

text \<open>
  The extended sequence number \<open>queuePacket\<close> writes into a buffer in state \<open>s\<close>:
  the number the buffer carries in the first-packet branch, the candidate chosen
  by \<open>extend_seq\<close> otherwise.
\<close>

definition resolved :: "ARTPSource \<Rightarrow> ABuffer \<Rightarrow> u32" where
  "resolved s buffer =
     (if mNumBuffersReceived s = 0 \<and> mFirstSysTime s = 0 then int32Data buffer
      else extend_seq (mHighestSeqNumber s) (int32Data buffer))"

section \<open>The candidates of \<open>extend_seq\<close> as natural numbers\<close>

lemma w_take: fixes w :: u32 assumes "w < 0x10000" shows "take_bit 16 w = w"
proof -
  have "unat w < 2 ^ 16" using assms by (simp add: word_less_nat_alt)
  then have "take_bit 16 (unat w) = unat w" by (simp add: take_bit_nat_eq_self_iff)
  then show ?thesis by (simp add: word_unat_eq_iff unsigned_take_bit_eq)
qed

lemma and0: fixes w x :: u32 assumes "take_bit 16 w = w" shows "w AND push_bit 16 x = 0"
proof -
  have "take_bit 16 w AND push_bit 16 x = 0"
    by (rule bit_word_eqI) (auto simp add: bit_simps)
  then show ?thesis using assms by simp
qed

lemma or_lo_hi: fixes w x :: u32 assumes "w < 0x10000" shows "w OR push_bit 16 x = w + push_bit 16 x"
  using and0[OF w_take[OF assms], of x] by (simp only: disjunctive_add_eq_or)

lemma hi_mask: fixes h :: u32 shows "h AND 0xffff0000 = push_bit 16 (drop_bit 16 h)"
proof -
  have "(0xffff0000 :: u32) = push_bit 16 (mask 16)" by (simp add: mask_eq_exp_minus_1)
  then have "h AND 0xffff0000 = h AND push_bit 16 (mask 16)" by simp
  also have "\<dots> = push_bit 16 (drop_bit 16 h)"
    by (rule bit_word_eqI) (auto simp add: bit_simps)
  finally show ?thesis .
qed

lemma unat_hi: fixes x :: u32 shows "unat (push_bit 16 x) = (unat x * 65536) mod 2^32"
  by (simp add: push_bit_eq_mult unat_word_ariths)

lemma unat_dr: fixes h :: u32 shows "unat (drop_bit 16 h) = unat h div 65536"
  by (simp add: drop_bit_eq_div unat_div)

lemma dr_lt: fixes h :: u32 shows "drop_bit 16 h < 0x10000"
proof -
  have "unat h < 2 ^ 32" using unsigned_less[of h] by simp
  then have "unat h div 65536 < 65536" by simp
  then show ?thesis by (simp add: word_less_nat_alt unat_dr)
qed

lemma or10000: fixes h :: u32 shows "(drop_bit 16 h) OR 0x10000 = drop_bit 16 h + 0x10000"
  using or_lo_hi[OF dr_lt, of h 1] by simp

lemma unat_AbsDiff: "unat (AbsDiff a b) = dist_nat (unat a) (unat b)"
  by (simp add: AbsDiff_def dist_nat_def word_less_nat_alt unat_sub word_le_nat_alt)

lemma seq1_nat: fixes w h :: u32 assumes "w < 0x10000" 
  shows "unat (w OR (h AND 0xffff0000)) = unat w + 65536 * (unat h div 65536)"
proof -
  have lt: "unat w < 65536" using assms by (simp add: word_less_nat_alt)
  have "unat h < 2 ^ 32" using unsigned_less[of h] by simp
  then have "unat h div 65536 < 65536" by simp
  then have "unat w + 65536 * (unat h div 65536) < 2 ^ 32" using lt by simp
  then show ?thesis
   unfolding hi_mask or_lo_hi[OF assms] 
   by (simp add: unat_word_ariths unat_hi unat_dr)
qed

lemma unat_lo_hi: fixes w x :: u32 assumes "w < 0x10000" and "unat (push_bit 16 x) = 65536 * k" and "k < 65536"
  shows "unat (w OR push_bit 16 x) = unat w + 65536 * k"
proof -
  have lt: "unat w < 65536" using assms(1) by (simp add: word_less_nat_alt)
  define X where "X = push_bit 16 x"
  have "unat (w + X) = (unat w + unat X) mod 2 ^ 32" by (simp add: unat_word_ariths)
  also have "\<dots> = unat w + 65536 * k" using lt assms(2,3) by (simp add: X_def)
  finally show ?thesis unfolding or_lo_hi[OF assms(1)] X_def .
qed

lemma seq2_nat: fixes w h :: u32 assumes "w < 0x10000" 
  shows "unat (w OR push_bit 16 (drop_bit 16 h + 1)) = unat w + 65536 * ((unat h div 65536 + 1) mod 65536)"
proof (rule unat_lo_hi[OF assms])
  have "unat h < 2 ^ 32" using unsigned_less[of h] by simp
  then have H: "unat h div 65536 < 65536" by simp
  show "unat (push_bit 16 (drop_bit 16 h + 1)) = 65536 * ((unat h div 65536 + 1) mod 65536)"
    using H by (simp add: unat_hi unat_word_ariths unat_dr mult.commute mult_mod_right)
  show "(unat h div 65536 + 1) mod 65536 < 65536" by simp
qed

lemma seq3_nat: fixes w h :: u32 assumes "w < 0x10000" 
  shows "unat (w OR push_bit 16 ((drop_bit 16 h OR 0x10000) - 1)) = unat w + 65536 * ((unat h div 65536 + 65535) mod 65536)"
proof (rule unat_lo_hi[OF assms])
  have "unat h < 2 ^ 32" using unsigned_less[of h] by simp
  then have H: "unat h div 65536 < 65536" by simp
  have "(drop_bit 16 h OR 0x10000) - 1 = drop_bit 16 h + 0xffff" by (simp add: or10000)
  moreover have "unat (drop_bit 16 h + 0xffff) = unat h div 65536 + 65535"
    using H by (simp add: unat_word_ariths unat_dr)
  moreover have "((unat h div 65536 + 65535) * 65536) mod 2 ^ 32
      = 65536 * ((unat h div 65536 + 65535) mod 65536)"
    by (simp add: mult.commute mult_mod_right)
  ultimately show "unat (push_bit 16 ((drop_bit 16 h OR 0x10000) - 1)) = 65536 * ((unat h div 65536 + 65535) mod 65536)"
    by (simp only: unat_hi)
  show "(unat h div 65536 + 65535) mod 65536 < 65536" by simp
qed

lemma unat_extend_seq: fixes w h :: u32 assumes "w < 0x10000" 
  shows "unat (extend_seq h w) = ext_nat (unat h) (unat w)"
  unfolding extend_seq_def ext_nat_def Let_def
  by (simp only: word_less_nat_alt unat_AbsDiff seq1_nat[OF assms] seq2_nat[OF assms] seq3_nat[OF assms] if_distrib[of unat] cong: if_cong)

lemma mod_succ_16: "H < 65536 \<Longrightarrow> (H + 1) mod 65536 = (if H = 65535 then 0 else H + 1)" for H :: nat
  by simp

lemma mod_pred_16: "H < 65536 \<Longrightarrow> (H + 65535) mod 65536 = (if H = 0 then 65535 else H - 1)" for H :: nat
  by (simp add: mod_if)

lemma choose1: "d1 < 32768 \<Longrightarrow> 32768 \<le> d2 \<Longrightarrow> 32768 \<le> d3 \<Longrightarrow>
  (if d1 < d2 then (if d1 < d3 then s1 else s3) else if d2 < d3 then s2 else s3) = s1"
  for d1 d2 d3 :: nat
  by simp

lemma choose2: "d2 < 32768 \<Longrightarrow> 32768 \<le> d1 \<Longrightarrow> 32768 \<le> d3 \<Longrightarrow>
  (if d1 < d2 then (if d1 < d3 then s1 else s3) else if d2 < d3 then s2 else s3) = s2"
  for d1 d2 d3 :: nat
  by simp

lemma choose3: "d3 < 32768 \<Longrightarrow> 32768 \<le> d1 \<Longrightarrow> 32768 \<le> d2 \<Longrightarrow>
  (if d1 < d2 then (if d1 < d3 then s1 else s3) else if d2 < d3 then s2 else s3) = s3"
  for d1 d2 d3 :: nat
  by simp

lemma dist_far_up: "dist_nat a b < 32768 \<Longrightarrow> 65536 \<le> k \<Longrightarrow> 32768 \<le> dist_nat (a + k) b"
  unfolding dist_nat_def by (simp split: if_splits; arith)

lemma dist_far_down: "dist_nat a b < 32768 \<Longrightarrow> 65536 \<le> k \<Longrightarrow> k \<le> a \<Longrightarrow> 32768 \<le> dist_nat (a - k) b"
  unfolding dist_nat_def by (simp split: if_splits; arith)

lemma ext_nat_window:
  assumes "a < 2 ^ 32" "b < 2 ^ 32" and d: "dist_nat a b < 32768"
  shows "ext_nat b (a mod 65536) = a"
proof -
  define A where "A = a div 65536"
  define w where "w = a mod 65536"
  define H where "H = b div 65536"
  define L where "L = b mod 65536"
  have a: "a = 65536 * A + w" and b: "b = 65536 * H + L" by (simp_all add: A_def w_def H_def L_def)
  have bounds: "w < 65536" "L < 65536" "A < 65536" "H < 65536" using assms by (simp_all add: A_def w_def H_def L_def)
  have cases: "A = H \<or> A = H + 1 \<or> A + 1 = H" 
    using d bounds unfolding a b dist_nat_def by (simp split: if_splits; arith)
  define s1 where "s1 = w + 65536 * H"
  define s2 where "s2 = w + 65536 * (if H = 65535 then 0 else H + 1)"
  define s3 where "s3 = w + 65536 * (if H = 0 then 65535 else H - 1)"
  have e: "ext_nat b w = (if dist_nat s1 b < dist_nat s2 b then (if dist_nat s1 b < dist_nat s3 b then s1 else s3) 
         else if dist_nat s2 b < dist_nat s3 b then s2 else s3)"
    unfolding ext_nat_def H_def[symmetric] Let_def s1_def s2_def s3_def
    by (simp only: mod_succ_16[OF bounds(4)] mod_pred_16[OF bounds(4)])
  from cases have "ext_nat b w = a"
  proof (elim disjE)
    assume AH: "A = H"
    have 1: "s1 = a" by (simp add: s1_def a AH)
    have 2: "32768 \<le> dist_nat s2 b"
    proof (cases "H = 65535")
      case True
      then have "s2 = w" by (simp add: s2_def)
      then show ?thesis using True bounds(1) unfolding b dist_nat_def by simp
    next
      case False
      then have "s2 = a + 65536" by (simp add: s2_def a AH)
      then show ?thesis using dist_far_up[OF d, of 65536] by simp
    qed
    have 3: "32768 \<le> dist_nat s3 b"
    proof (cases "H = 0")
      case True
      then have "s3 = a + 65536 * 65535" by (simp add: s3_def a AH)
      then show ?thesis using dist_far_up[OF d, of "65536 * 65535"] by simp
    next
      case False
      then have "s3 = a - 65536 \<and> 65536 \<le> a" by (simp add: s3_def a AH diff_mult_distrib2)
      then show ?thesis using dist_far_down[OF d, of 65536] by simp
    qed
    show ?thesis unfolding e using choose1[OF _ 2 3, of "dist_nat s1 b" s1 s3 s2] d 1 by simp 
  next
    assume AH: "A = H + 1"
    then have H: "H \<noteq> 65535" using bounds(3) by simp
    have 2: "s2 = a" using H by (simp add: s2_def a AH)
    have 1: "32768 \<le> dist_nat s1 b"
    proof -
      have "s1 = a - 65536 \<and> 65536 \<le> a" by (simp add: s1_def a AH)
      then show ?thesis using dist_far_down[OF d, of 65536] by simp
    qed
    have 3: "32768 \<le> dist_nat s3 b"
    proof (cases "H = 0")
      case True
      then have "s3 = a + 65536 * 65534" by (simp add: s3_def a AH)
      then show ?thesis using dist_far_up[OF d, of "65536 * 65534"] by simp
    next
      case False
      then have "s3 = a - 131072 \<and> 131072 \<le> a" by (simp add: s3_def a AH diff_mult_distrib2)
      then show ?thesis using dist_far_down[OF d, of 131072] by simp
    qed
    show ?thesis unfolding e using choose2[OF _ 1 3, of "dist_nat s2 b" s1 s3 s2] d 2 by simp 
  next
    assume "A + 1 = H"
    then have AH: "H = A + 1" by simp
    then have H: "H \<noteq> 0" by simp
    have 3: "s3 = a" using H by (simp add: s3_def a AH)
    have 1: "32768 \<le> dist_nat s1 b"
    proof -
      have "s1 = a + 65536" by (simp add: s1_def a AH)
      then show ?thesis using dist_far_up[OF d, of 65536] by simp
    qed
    have 2: "32768 \<le> dist_nat s2 b"
    proof (cases "H = 65535")
      case True
      then have "s2 = w" by (simp add: s2_def)
      then show ?thesis using True bounds(1) unfolding b dist_nat_def by simp
    next
      case False
      then have "s2 = a + 131072" by (simp add: s2_def a AH)
      then show ?thesis using dist_far_up[OF d, of 131072] by simp
    qed
    show ?thesis unfolding e using choose3[OF _ 1 2, of "dist_nat s3 b" s1 s3 s2] d 3 by simp 
  qed
  then show ?thesis by (simp add: w_def)
qed

section \<open>A source without an assembler\<close>

lemma new_ARTPSource_initCheck_fails:
  assumes "new_ARTPSource ident desc rawSupports False seed qm self = Inr s"
  shows "mAssembler s = None \<and> \<not> isNeedToReport s \<and> mQueue s = []"
  using assms
  by (auto simp add: new_ARTPSource_def isNeedToReport_def split: sum.splits prod.splits)

text \<open>
  Claim C10. A source that holds no assembler (the constructor cleared it because
  \<open>initCheck()\<close> failed) is left exactly as it was by \<open>processRTPPacket\<close>: the call
  returns the buffer untouched and the same state, so nothing is queued, no counter
  moves, and any number of packets leaves the state, hence \<open>isNeedToReport\<close>, as
  it was. The closed instance after it builds such a source with the constructor.
\<close>

theorem no_assembler_packets_change_nothing:
  assumes "mAssembler s = None"
  shows "processRTPPacket ext s buffer nowUs = Inr (buffer, s)
       \<and> feed ext s ps = Inr (map fst ps, s)
       \<and> run ext s (map (\<lambda>(b, t). ProcessRTPPacket b t) ps) = Inr s"
proof -
  have one: "processRTPPacket ext s b t = Inr (b, s)" for b t
    using assms by (simp add: processRTPPacket_def)
  have "feed ext s ps = Inr (map fst ps, s)"
    by (induction ps) (auto simp add: one)
  moreover have "run ext s (map (\<lambda>(b, t). ProcessRTPPacket b t) ps) = Inr s"
    by (induction ps) (auto simp add: one)
  ultimately show ?thesis using one by simp
qed

lemma sel: "select_assembler ''H264/90000'' False = Inr (AAVCAssembler, True)"
  by (simp add: select_assembler_def strncmp_eq_def)

theorem no_assembler_witness:
  "(case new_ARTPSource 7 ''H264/90000'' False False 0 qm0 0xdeadbeef of
      Inl e \<Rightarrow> False
    | Inr s \<Rightarrow> mAssembler s = None
        \<and> feed ext0 s [(pkt 5, 1000), (pkt 6, 2000)] = Inr ([pkt 5, pkt 6], s)
        \<and> isNeedToReport s = False)"
proof -
  obtain s where s: "new_ARTPSource 7 ''H264/90000'' False False 0 qm0 0xdeadbeef = Inr s"
    by (simp add: new_ARTPSource_def sel)
  have n: "mAssembler s = None" "\<not> isNeedToReport s"
    using new_ARTPSource_initCheck_fails[OF s] by simp_all
  have "feed ext0 s [(pkt 5, 1000), (pkt 6, 2000)] = Inr ([pkt 5, pkt 6], s)"
    using no_assembler_packets_change_nothing[OF n(1), of ext0 "pkt 5" 1000 "[(pkt 5, 1000), (pkt 6, 2000)]"]
    by (simp del: feed.simps run.simps)
  then show ?thesis
    using n by (simp add: s del: feed.simps)
qed

section \<open>The reorder queue stays ascending\<close>

lemma ascending_insert:
  assumes "ascending (queue_keys q)"
    and "\<not> (dropWhile (\<lambda>b. int32Data b < e) q \<noteq> [] \<and> int32Data (hd (dropWhile (\<lambda>b. int32Data b < e) q)) = e)"
    and "int32Data b = e"
  shows "ascending (queue_keys (takeWhile (\<lambda>b. int32Data b < e) q @ b # dropWhile (\<lambda>b. int32Data b < e) q))"
proof -
  let ?P = "\<lambda>b. int32Data b < e"
  let ?before = "takeWhile ?P q" and ?rest = "dropWhile ?P q"
  have q: "q = ?before @ ?rest" by simp
  have sq: "sorted_wrt (\<lambda>x y. int32Data x < int32Data y) q"
    using assms(1) by (simp add: ascending_def queue_keys_def sorted_wrt_map)
  then have s2: "sorted_wrt (\<lambda>x y. int32Data x < int32Data y) (?before @ ?rest)" by simp
  have lo: "\<forall>x\<in>set ?before. int32Data x < e" by (auto dest: set_takeWhileD)
  have hi: "\<forall>y\<in>set ?rest. e < int32Data y"
  proof
    fix z assume z: "z \<in> set ?rest"
    then obtain y ys where c: "?rest = y # ys" by (cases ?rest) auto
    then have "\<not> ?P y" using hd_dropWhile[of ?P q] by (metis list.distinct(1) list.sel(1))
    moreover have "int32Data y \<noteq> e" using assms(2) c by (metis list.distinct(1) list.sel(1))
    ultimately have y: "e < int32Data y" by simp
    have "sorted_wrt (\<lambda>x y. int32Data x < int32Data y) ?rest"
      using s2 by (simp only: sorted_wrt_append)
    then have "\<forall>z\<in>set ys. int32Data y < int32Data z" by (simp only: c sorted_wrt.simps) simp
    then show "e < int32Data z" using y z unfolding c by auto
  qed
  have parts: "sorted_wrt (\<lambda>x y. int32Data x < int32Data y) ?before
      \<and> sorted_wrt (\<lambda>x y. int32Data x < int32Data y) ?rest
      \<and> (\<forall>x\<in>set ?before. \<forall>y\<in>set ?rest. int32Data x < int32Data y)"
    using s2[unfolded sorted_wrt_append] by blast
  have "sorted_wrt (\<lambda>x y. int32Data x < int32Data y) (?before @ b # ?rest)"
    unfolding sorted_wrt_append sorted_wrt.simps
    using parts lo hi assms(3) by auto
  then show ?thesis
    by (simp only: ascending_def queue_keys_def sorted_wrt_map)
qed

lemma ascending_filter: "ascending (queue_keys q) \<Longrightarrow> ascending (queue_keys (filter P q))"
  by (simp add: ascending_def queue_keys_def sorted_wrt_map sorted_wrt_filter)

lemma queuePacket_ascending:
  assumes "ascending (queue_keys (mQueue s))"
    and "mNumBuffersReceived s = 0 \<and> mFirstSysTime s = 0 \<Longrightarrow> mQueue s = []"
    and "queuePacket s b t = Inr (ok, b', s')"
  shows "ascending (queue_keys (mQueue s'))"
proof (cases "mNumBuffersReceived s = 0 \<and> mFirstSysTime s = 0")
  case True
  then show ?thesis using assms(2,3)
    by (auto simp add: queuePacket_def Let_def ascending_def queue_keys_def split: option.splits)
next
  case False
  define e where "e = extend_seq (mHighestSeqNumber s) (int32Data b)"
  show ?thesis
  proof (cases "dropWhile (\<lambda>b. int32Data b < e) (mQueue s) \<noteq> [] \<and> int32Data (hd (dropWhile (\<lambda>b. int32Data b < e) (mQueue s))) = e")
    case True
    then have "mQueue s' = mQueue s" using assms(3) False
      by (auto simp add: queuePacket_def Let_def e_def split: if_splits)
    then show ?thesis using assms(1) by simp
  next
    case dup: False
    then have "mQueue s' = takeWhile (\<lambda>b. int32Data b < e) (mQueue s) @ b\<lparr>int32Data := e\<rparr> # dropWhile (\<lambda>b. int32Data b < e) (mQueue s)"
      using assms(3) False
      by (auto simp add: queuePacket_def Let_def e_def split: if_splits)
    then show ?thesis using ascending_insert[OF assms(1) dup, of "b\<lparr>int32Data := e\<rparr>"] by simp
  qed
qed

lemma queuePacket_count:
  assumes "queuePacket s b t = Inr (ok, b', s')"
  shows "mNumBuffersReceived s' = mNumBuffersReceived s + 1"
  using assms by (auto simp add: queuePacket_def Let_def split: if_splits option.splits)

lemma processRTPPacket_ascending:
  assumes "ascending (queue_keys (mQueue s))"
    and "mNumBuffersReceived s = 0 \<and> mFirstSysTime s = 0 \<Longrightarrow> mQueue s = []"
    and "processRTPPacket ext s b t = Inr (b', s')"
  shows "ascending (queue_keys (mQueue s'))"
proof (cases "mAssembler s")
  case None
  then show ?thesis using assms(1,3) by (simp add: processRTPPacket_def)
next
  case (Some a)
  then obtain ok s1 where q: "queuePacket s b t = Inr (ok, b', s1)"
    and s': "s' = (if ok then s1\<lparr>mQueue := onPacketReceived ext a (mQueue s1)\<rparr> else s1)"
    using assms(3) by (auto simp add: processRTPPacket_def split: sum.splits)
  have "ascending (queue_keys (mQueue s1))" using queuePacket_ascending[OF assms(1,2) q] by simp
  then show ?thesis by (simp add: s' onPacketReceived_def ascending_filter)
qed

lemma processRTPPacket_count:
  assumes "processRTPPacket ext s b t = Inr (b', s')"
  shows "mNumBuffersReceived s' = mNumBuffersReceived s + (if mAssembler s = None then 0 else 1)
       \<and> mAssembler s' = mAssembler s"
  using assms
  by (auto simp add: processRTPPacket_def queuePacket_def Let_def split: sum.splits option.splits if_splits)

lemma feed_ascending_gen:
  assumes "ascending (queue_keys (mQueue s))"
    and "mNumBuffersReceived s = of_nat k" and "k = 0 \<Longrightarrow> mQueue s = []"
    and "k + length ps < 2 ^ 32"
    and "feed ext s ps = Inr (bs, s')"
  shows "ascending (queue_keys (mQueue s'))"
  using assms
proof (induction ps arbitrary: s k bs)
  case Nil
  then show ?case by simp
next
  case (Cons p ps)
  obtain b t where p: "p = (b, t)" by (cases p)
  from Cons.prems(5) obtain b1 s1 bs1 where
    one: "processRTPPacket ext s b t = Inr (b1, s1)" and rest: "feed ext s1 ps = Inr (bs1, s')"
    by (auto simp add: p split: sum.splits prod.splits)
  have z: "mNumBuffersReceived s = 0 \<and> mFirstSysTime s = 0 \<Longrightarrow> mQueue s = []"
  proof -
    assume "mNumBuffersReceived s = 0 \<and> mFirstSysTime s = 0"
    then have "(of_nat k :: 32 word) = 0" using Cons.prems(2) by simp
    moreover have "k < 2 ^ 32" using Cons.prems(4) by simp
    ultimately have "k = 0" by (auto simp add: word_of_nat_eq_0_iff dest: dvd_imp_le)
    then show "mQueue s = []" using Cons.prems(3) by simp
  qed
  have a1: "ascending (queue_keys (mQueue s1))"
    using processRTPPacket_ascending[OF Cons.prems(1) z one] by simp
  show ?case
  proof (cases "mAssembler s")
    case None
    then have "s1 = s" using one by (simp add: processRTPPacket_def)
    then show ?thesis
      using Cons.IH[of s k bs1] Cons.prems rest by simp
  next
    case (Some a)
    then have c: "mNumBuffersReceived s1 = of_nat (Suc k)"
      using processRTPPacket_count[OF one] Cons.prems(2) by simp
    show ?thesis
      using Cons.IH[of s1 "Suc k" bs1] a1 c rest Cons.prems(4) by simp
  qed
qed

text \<open>
  Claim C3. Starting from a freshly constructed source, after any sequence of
  packets handed to \<open>processRTPPacket\<close> (duplicates and reorderings included, and
  whatever the assembler removes in between) the reorder queue is strictly
  ascending in the extended sequence numbers its entries carry: sorted, with no
  key twice. The sequence is shorter than \<open>2^32\<close>, so that the received counter,
  which selects the first-packet branch, does not come back to 0.
\<close>

theorem queue_stays_ascending:
  assumes "new_ARTPSource ident desc rawSupports initCheck seed qm self = Inr s0"
    and "length ps < 2 ^ 32"
    and "feed ext s0 ps = Inr (bs, s)"
  shows "sorted_wrt (<) (map int32Data (mQueue s))
       \<and> sorted (map int32Data (mQueue s)) \<and> distinct (map int32Data (mQueue s))"
proof -
  have i: "mQueue s0 = []" "mNumBuffersReceived s0 = of_nat 0"
    using assms(1) by (auto simp add: new_ARTPSource_def split: sum.splits prod.splits)
  have "ascending (queue_keys (mQueue s0))" by (simp add: i ascending_def queue_keys_def)
  then have "ascending (queue_keys (mQueue s))"
    using feed_ascending_gen[of s0 0 ps ext bs s] i assms(2,3) by simp
  then show ?thesis by (simp add: ascending_def queue_keys_def strict_sorted_iff)
qed

lemma new_src0: "new_ARTPSource 7 ''H264/90000'' False True 0 qm0 0xdeadbeef = Inr src0"
  by (simp add: new_ARTPSource_def select_assembler_def strncmp_eq_def src0_def)

lemma feed_example:
  "feed ext0 src0 [(pkt 5, 1000), (pkt 7, 2000), (pkt 6, 3000), (pkt 7, 4000)]
     = Inr ([pkt 5, pkt 7, pkt 6, pkt 7],
            src0\<lparr>mFirstSysTime := 1000, mClockRate := 90000, mHighestSeqNumber := 7,
                 mBaseSeqNumber := 5, mNumBuffersReceived := 4,
                 mQueue := [pkt 5, pkt 6, pkt 7]\<rparr>)"
  by (simp add: processRTPPacket_def queuePacket_def extend_seq_def AbsDiff_def
      onPacketReceived_def ext0_def src0_def pkt_def Let_def)

theorem queue_stays_ascending_witness:
  "new_ARTPSource 7 ''H264/90000'' False True 0 qm0 0xdeadbeef = Inr src0
   \<and> feed ext0 src0 [(pkt 5, 1000), (pkt 7, 2000), (pkt 6, 3000), (pkt 7, 4000)]
     = Inr ([pkt 5, pkt 7, pkt 6, pkt 7],
            src0\<lparr>mFirstSysTime := 1000, mClockRate := 90000, mHighestSeqNumber := 7,
                 mBaseSeqNumber := 5, mNumBuffersReceived := 4,
                 mQueue := [pkt 5, pkt 6, pkt 7]\<rparr>)
   \<and> sorted_wrt (<) (map int32Data [pkt 5, pkt 6, pkt 7])"
  using queue_stays_ascending[OF new_src0 _ feed_example] new_src0 feed_example
  by simp

section \<open>Recovering the extended sequence numbers\<close>

lemma wire_lt: "wire t < 0x10000"
proof -
  have "wire t \<le> 0xffff" unfolding wire_def by (rule word_and_le1)
  then show ?thesis by (simp add: word_le_nat_alt word_less_nat_alt)
qed

lemma unat_wire: "unat (wire t) = unat t mod 65536"
proof -
  have "wire t = take_bit 16 t" by (simp add: wire_def take_bit_eq_mask mask_eq_exp_minus_1)
  then have "unat (wire t) = take_bit 16 (unat t)" by (simp only: unsigned_take_bit_eq)
  then show ?thesis by (simp add: take_bit_eq_mod)
qed

text \<open>
  The heart of the reconstruction: a 32-bit number less than 32768 away from the
  highest one is recovered from its low 16 bits.
\<close>

lemma extend_seq_window:
  assumes "AbsDiff t h < 0x8000"
  shows "extend_seq h (wire t) = t"
proof -
  have d: "dist_nat (unat t) (unat h) < 32768"
    using assms by (simp add: word_less_nat_alt unat_AbsDiff)
  have "unat t < 2 ^ 32" "unat h < 2 ^ 32"
    using unsigned_less[of t] unsigned_less[of h] by simp_all
  then have "ext_nat (unat h) (unat t mod 65536) = unat t"
    using ext_nat_window d by blast
  then have "unat (extend_seq h (wire t)) = unat t"
    by (simp add: unat_extend_seq[OF wire_lt] unat_wire)
  then show ?thesis by (simp add: word_unat_eq_iff)
qed

lemma queuePacket_later:
  assumes "mNumBuffersReceived s \<noteq> 0 \<or> mFirstSysTime s \<noteq> 0"
  shows "\<exists>ok s'. queuePacket s b t = Inr (ok, b\<lparr>int32Data := extend_seq (mHighestSeqNumber s) (int32Data b)\<rparr>, s')
      \<and> mHighestSeqNumber s' = max (mHighestSeqNumber s) (extend_seq (mHighestSeqNumber s) (int32Data b))
      \<and> mNumBuffersReceived s' = mNumBuffersReceived s + 1
      \<and> mFirstSysTime s' = mFirstSysTime s
      \<and> mAssembler s' = mAssembler s"
  using assms by (auto simp add: queuePacket_def Let_def max_def)

lemma processRTPPacket_later:
  assumes "mNumBuffersReceived s \<noteq> 0 \<or> mFirstSysTime s \<noteq> 0" and "mAssembler s \<noteq> None"
  shows "\<exists>s'. processRTPPacket ext s b t = Inr (b\<lparr>int32Data := extend_seq (mHighestSeqNumber s) (int32Data b)\<rparr>, s')
      \<and> mHighestSeqNumber s' = max (mHighestSeqNumber s) (extend_seq (mHighestSeqNumber s) (int32Data b))
      \<and> mNumBuffersReceived s' = mNumBuffersReceived s + 1
      \<and> mFirstSysTime s' = mFirstSysTime s
      \<and> mAssembler s' = mAssembler s"
proof -
  obtain a where a: "mAssembler s = Some a" using assms(2) by auto
  obtain ok s1 where q: "queuePacket s b t = Inr (ok, b\<lparr>int32Data := extend_seq (mHighestSeqNumber s) (int32Data b)\<rparr>, s1)"
      "mHighestSeqNumber s1 = max (mHighestSeqNumber s) (extend_seq (mHighestSeqNumber s) (int32Data b))"
      "mNumBuffersReceived s1 = mNumBuffersReceived s + 1"
      "mFirstSysTime s1 = mFirstSysTime s" "mAssembler s1 = mAssembler s"
    using queuePacket_later[OF assms(1), of b t] by blast
  show ?thesis by (simp add: processRTPPacket_def a q)
qed

lemma of_nat_32_neq_0:
  assumes "0 < k" "k < 2 ^ 32" shows "(of_nat k :: 32 word) \<noteq> 0"
  using assms by (auto simp add: word_of_nat_eq_0_iff dest: dvd_imp_le)

lemma feed_window_gen:
  assumes "mAssembler s \<noteq> None"
    and "mNumBuffersReceived s = of_nat k" and "0 < k" and "k + length ps < 2 ^ 32"
    and "in_window (mHighestSeqNumber s) ts"
    and "map (\<lambda>p. int32Data (fst p)) ps = map wire ts"
  shows "\<exists>bs s'. feed ext s ps = Inr (bs, s') \<and> map int32Data bs = ts"
  using assms
proof (induction ps arbitrary: s k ts)
  case Nil
  then show ?case by simp
next
  case (Cons p ps)
  obtain b t where p: "p = (b, t)" by (cases p)
  obtain x xs where ts: "ts = x # xs" and b: "int32Data b = wire x"
    and m: "map (\<lambda>p. int32Data (fst p)) ps = map wire xs"
    using Cons.prems(6) p by (cases ts) auto
  have w: "AbsDiff x (mHighestSeqNumber s) < 0x8000" "in_window (max (mHighestSeqNumber s) x) xs"
    using Cons.prems(5) ts by simp_all
  have nz: "mNumBuffersReceived s \<noteq> 0 \<or> mFirstSysTime s \<noteq> 0"
    using of_nat_32_neq_0[of k] Cons.prems(2,3,4) by simp
  have e: "extend_seq (mHighestSeqNumber s) (int32Data b) = x"
    using extend_seq_window[OF w(1)] b by simp
  obtain s1 where one: "processRTPPacket ext s b t = Inr (b\<lparr>int32Data := x\<rparr>, s1)"
      and h1: "mHighestSeqNumber s1 = max (mHighestSeqNumber s) x"
      and n1: "mNumBuffersReceived s1 = mNumBuffersReceived s + 1"
      and a1: "mAssembler s1 = mAssembler s"
    using processRTPPacket_later[OF nz Cons.prems(1), of ext b t] e by auto
  have "mNumBuffersReceived s1 = of_nat (Suc k)" using n1 Cons.prems(2) by simp
  moreover have "Suc k + length ps < 2 ^ 32" using Cons.prems(4) by simp
  ultimately obtain bs s' where r: "feed ext s1 ps = Inr (bs, s')" "map int32Data bs = xs"
    using Cons.IH[of s1 "Suc k" xs] a1 Cons.prems(1) h1 w(2) m by auto
  show ?case by (simp add: p one r ts)
qed

text \<open>
  Claim C1, as amended. A freshly constructed source with an assembler is fed
  packets whose integer slots carry the low 16 bits of the original 32-bit numbers
  \<open>t # ts\<close>, in arrival order. If the first number to arrive is below 65536 (it
  is its own wire value, which the code takes as the baseline), every later one is
  less than 32768 away from the highest that arrived before it, and the first
  buffer carries an \<open>rtp-time\<close>, then no call aborts and each buffer leaves with
  exactly its original 32-bit number.
\<close>

theorem extended_numbers_recovered:
  assumes "new_ARTPSource ident desc rawSupports True seed qm self = Inr s0"
    and "t < 0x10000" and "in_window t ts"
    and "map (\<lambda>p. int32Data (fst p)) ps = map wire (t # ts)"
    and "meta_rtp_time (fst (hd ps)) \<noteq> None"
    and "length ps < 2 ^ 32"
  shows "assigned ext s0 ps = Inr (t # ts)"
proof -
  obtain a fir where sel: "select_assembler desc rawSupports = Inr (a, fir)"
    using assms(1) by (auto simp add: new_ARTPSource_def split: sum.splits)
  have i: "mQueue s0 = []" "mNumBuffersReceived s0 = 0" "mFirstSysTime s0 = 0" "mAssembler s0 = Some a"
    using assms(1) sel by (auto simp add: new_ARTPSource_def)
  obtain b nowUs ps' where ps: "ps = (b, nowUs) # ps'" and b: "int32Data b = wire t"
    and m: "map (\<lambda>p. int32Data (fst p)) ps' = map wire ts"
    using assms(4) by (cases ps) auto
  obtain r where r: "meta_rtp_time b = Some r" using assms(5) ps by auto
  have "take_bit 16 t = t" using w_take[OF assms(2)] .
  then have wt: "wire t = t" by (simp add: wire_def take_bit_eq_mask mask_eq_exp_minus_1)
  define s1 where "s1 = s0\<lparr>mNumBuffersReceived := 1, mFirstSysTime := nowUs, mHighestSeqNumber := t,
      mBaseSeqNumber := t, mFirstRtpTime := r, mClockRate := 90000,
      mQueue := onPacketReceived ext a [b]\<rparr>"
  have one: "processRTPPacket ext s0 b nowUs = Inr (b, s1)"
    by (simp add: processRTPPacket_def queuePacket_def i r b wt s1_def Let_def)
  have "mAssembler s1 \<noteq> None" "mNumBuffersReceived s1 = of_nat 1" "mHighestSeqNumber s1 = t"
    by (simp_all add: s1_def i)
  moreover have "1 + length ps' < 2 ^ 32" using assms(6) ps by simp
  ultimately obtain bs s where f: "feed ext s1 ps' = Inr (bs, s)" "map int32Data bs = ts"
    using feed_window_gen[of s1 1 ps' ts ext] assms(3) m by auto
  show ?thesis by (simp add: assigned_def ps one f b wt)
qed

theorem extended_numbers_recovered_witness:
  "(0xfffe :: u32) < 0x10000 \<and> in_window 0xfffe [0x10001, 0xffff, 0x10000]
   \<and> assigned ext0 src0
        [(pkt (wire 0xfffe), 1000), (pkt (wire 0x10001), 2000),
         (pkt (wire 0xffff), 3000), (pkt (wire 0x10000), 4000)]
      = Inr [0xfffe, 0x10001, 0xffff, 0x10000]"
proof -
  have h2: "(0xfffe :: u32) < 0x10000" by simp
  have h3: "in_window 0xfffe [0x10001, 0xffff, 0x10000]" by (simp add: AbsDiff_def)
  have h4: "map (\<lambda>p. int32Data (fst p))
        [(pkt (wire 0xfffe), 1000 :: i64), (pkt (wire 0x10001), 2000),
         (pkt (wire 0xffff), 3000), (pkt (wire 0x10000), 4000)]
      = map wire [0xfffe, 0x10001, 0xffff, 0x10000]" by (simp add: pkt_def)
  have h5: "meta_rtp_time (fst (hd [(pkt (wire 0xfffe), 1000 :: i64), (pkt (wire 0x10001), 2000),
         (pkt (wire 0xffff), 3000), (pkt (wire 0x10000), 4000)])) \<noteq> None" by (simp add: pkt_def)
  have h6: "length [(pkt (wire 0xfffe), 1000 :: i64), (pkt (wire 0x10001), 2000),
         (pkt (wire 0xffff), 3000), (pkt (wire 0x10000), 4000)] < 2 ^ 32" by simp
  from extended_numbers_recovered[OF new_src0 h2 h3 h4 h5 h6, of ext0] h2 h3
  show ?thesis by blast
qed

text \<open>
  The claim as stated fails when the first packet to arrive has an original number
  of 65536 or more: the stream 65535, 65536 arriving as 65536, 65535 is within the
  window, yet the buffers leave with 0 and 65535.
\<close>

theorem extended_numbers_counterexample:
  "new_ARTPSource 7 ''H264/90000'' False True 0 qm0 0xdeadbeef = Inr src0
   \<and> in_window 0x10000 [0xffff]
   \<and> assigned ext0 src0 [(pkt (wire 0x10000), 1000), (pkt (wire 0xffff), 2000)] = Inr [0, 0xffff]
   \<and> [0, 0xffff] \<noteq> [0x10000, 0xffff :: u32]"
  by (simp add: new_src0 AbsDiff_def assigned_def processRTPPacket_def queuePacket_def
      extend_seq_def onPacketReceived_def ext0_def src0_def pkt_def wire_def Let_def)

section \<open>The first-packet baseline\<close>

text \<open>What the report builders leave alone.\<close>

lemma addFIR_frame:
  "mHighestSeqNumber (snd (addFIR s buffer nowUs)) = mHighestSeqNumber s"
  "mFirstSysTime (snd (addFIR s buffer nowUs)) = mFirstSysTime s"
  "mLastNTPTime (snd (addFIR s buffer nowUs)) = mLastNTPTime s"
  by (simp_all add: addFIR_def Let_def)

lemma addReceiverReport_frame:
  "mHighestSeqNumber (snd (addReceiverReport ext s buffer nowUs)) = mHighestSeqNumber s"
  "mFirstSysTime (snd (addReceiverReport ext s buffer nowUs)) = mFirstSysTime s"
  "mLastNTPTime (snd (addReceiverReport ext s buffer nowUs)) = mLastNTPTime s"
  "mLastFIRRequestUs (snd (addReceiverReport ext s buffer nowUs)) = mLastFIRRequestUs s"
  by (simp_all add: addReceiverReport_def)

lemma addTMMBR_frame:
  assumes "addTMMBR s buffer = Inr (buffer', s')"
  shows "s' = s"
  using assms by (auto simp add: addTMMBR_def Let_def split: if_splits)

text \<open>
  Every source the constructor returns satisfies \<open>baseline_inv\<close>, and every call
  that meets its condition keeps it. In particular the first-packet branch of
  \<open>queuePacket\<close> is taken at most once, on an empty queue.
\<close>

lemma new_baseline_inv:
  assumes "new_ARTPSource ident desc rawSupports initCheck seed qm self = Inr s0"
  shows "baseline_inv s0"
  using assms
  by (auto simp add: new_ARTPSource_def baseline_inv_def ascending_def queue_keys_def
      split: sum.splits prod.splits)

lemma builders_frame:
  "mQueue (snd (addFIR s buffer nowUs)) = mQueue s"
  "mNumBuffersReceived (snd (addFIR s buffer nowUs)) = mNumBuffersReceived s"
  "mQueue (snd (addReceiverReport ext s buffer nowUs)) = mQueue s"
  "mNumBuffersReceived (snd (addReceiverReport ext s buffer nowUs)) = mNumBuffersReceived s"
  by (simp_all add: addFIR_def addReceiverReport_def Let_def)

lemma abandon_zero:
  fixes cnt :: i32
  assumes "0 \<le>s cnt" "cnt \<le>s 0" shows "cnt = 0"
  using assms by (simp add: word_sle_eq signed_eq_0_iff)

lemma processRTPPacket_baseline_inv:
  assumes "baseline_inv s" and "t \<noteq> 0" and "processRTPPacket ext s b t = Inr (b', s')"
  shows "baseline_inv s'"
proof -
  have e: "mNumBuffersReceived s = 0 \<and> mFirstSysTime s = 0 \<Longrightarrow> mQueue s = []"
    using assms(1) by (simp add: baseline_inv_def)
  have a: "ascending (queue_keys (mQueue s'))"
    using processRTPPacket_ascending[OF _ e assms(3)] assms(1) by (simp add: baseline_inv_def)
  show ?thesis
  proof (cases "mAssembler s")
    case None
    then show ?thesis using assms(1,3) by (simp add: processRTPPacket_def)
  next
    case (Some a')
    have "mFirstSysTime s' \<noteq> 0"
      using assms Some
      by (auto simp add: baseline_inv_def processRTPPacket_def queuePacket_def Let_def
          split: sum.splits option.splits if_splits)
    then show ?thesis using a by (simp add: baseline_inv_def)
  qed
qed

lemma step_baseline_inv:
  assumes "baseline_inv s" and "call_in_contract s c" and "step ext s c = Inr s'"
  shows "baseline_inv s'"
proof (cases c)
  case (ProcessRTPPacket b t)
  then obtain b' where "processRTPPacket ext s b t = Inr (b', s')"
    using assms(3) by (cases "processRTPPacket ext s b t") auto
  then show ?thesis using processRTPPacket_baseline_inv[OF assms(1), of t ext b b' s'] assms(2) ProcessRTPPacket
    by simp
next
  case (AddTMMBR b)
  then obtain b' where "addTMMBR s b = Inr (b', s')"
    using assms(3) by (cases "addTMMBR s b") auto
  then show ?thesis using addTMMBR_frame assms(1) by auto
next
  case (NoticeAbandonBuffer cnt)
  show ?thesis
  proof (cases "mFirstSysTime s = 0")
    case True
    then have "mNumBuffersReceived s = 0" using assms(1) by (simp add: baseline_inv_def)
    then have "cnt = 0" using assms(2) NoticeAbandonBuffer abandon_zero[of cnt] by simp
    then show ?thesis using assms(1,3) NoticeAbandonBuffer by (simp add: noticeAbandonBuffer_def)
  next
    case False
    then show ?thesis using assms(1,3) NoticeAbandonBuffer
      by (auto simp add: noticeAbandonBuffer_def baseline_inv_def)
  qed
next
  case (AddFIR b t)
  then have "s' = snd (addFIR s b t)" using assms(3) by simp
  then show ?thesis using assms(1) by (simp add: baseline_inv_def addFIR_frame builders_frame)
next
  case (AddReceiverReport b t)
  then have "s' = snd (addReceiverReport ext s b t)" using assms(3) by simp
  then show ?thesis using assms(1) by (simp add: baseline_inv_def addReceiverReport_frame builders_frame)
qed (use assms in \<open>auto simp add: baseline_inv_def timeUpdate_def byeReceived_def 
      setSelfID_def setMinMaxBitrate_src_def\<close>)

lemma run_baseline_inv:
  assumes "baseline_inv s" and "in_contract ext s cs" and "run ext s cs = Inr s'"
  shows "baseline_inv s'"
  using assms
proof (induction cs arbitrary: s)
  case Nil
  then show ?case by simp
next
  case (Cons c cs)
  then obtain s1 where s1: "step ext s c = Inr s1" "run ext s1 cs = Inr s'"
    by (cases "step ext s c") auto
  have c: "call_in_contract s c" "in_contract ext s1 cs" using Cons.prems(2) s1(1) by simp_all
  show ?case using Cons.IH[OF step_baseline_inv[OF Cons.prems(1) c(1) s1(1)] c(2) s1(2)] .
qed

section \<open>Duplicates are rejected but counted\<close>

lemma wire_take_bit: "wire v = take_bit 16 v"
  by (simp add: wire_def take_bit_eq_mask mask_eq_exp_minus_1)

lemma wire_or_hi:
  fixes w x :: u32 assumes "w < 0x10000"
  shows "wire (w OR push_bit 16 x) = w"
proof -
  have "take_bit 16 (w OR push_bit 16 x) = take_bit 16 w"
    by (rule bit_word_eqI) (auto simp add: bit_simps)
  then show ?thesis unfolding wire_take_bit by (simp only: w_take[OF assms])
qed

lemma wire_extend_seq:
  assumes "w < 0x10000"
  shows "wire (extend_seq h w) = w"
  unfolding extend_seq_def Let_def hi_mask
  by (simp only: wire_or_hi[OF assms] if_distrib[of wire] if_cancel)

text \<open>Resolving the same wire value again, after the highest number has been raised to the first result, gives the first result.\<close>

lemma extend_seq_stable:
  assumes "w < 0x10000"
  shows "extend_seq (max h (extend_seq h w)) w = extend_seq h w"
proof (cases "h < extend_seq h w")
  case True
  define e where "e = extend_seq h w"
  have "AbsDiff e e < 0x8000" by (simp add: AbsDiff_def)
  then have "extend_seq e (wire e) = e" by (rule extend_seq_window)
  then have "extend_seq e w = e" using wire_extend_seq[OF assms, of h] by (simp add: e_def)
  then show ?thesis using True by (simp add: e_def max_def)
next
  case False
  then show ?thesis by (simp add: max_def)
qed

lemma duplicate_found:
  assumes "sorted_wrt (<) (map int32Data q)" and "e \<in> set (map int32Data q)"
  shows "dropWhile (\<lambda>b. int32Data b < e) q \<noteq> [] \<and> int32Data (hd (dropWhile (\<lambda>b. int32Data b < e) q)) = e"
proof -
  let ?P = "\<lambda>b. int32Data b < e"
  obtain z where z: "z \<in> set q" "int32Data z = e" using assms(2) by auto
  have "z \<notin> set (takeWhile ?P q)" using z(2) by (auto dest: set_takeWhileD)
  moreover have "set q = set (takeWhile ?P q) \<union> set (dropWhile ?P q)"
    by (metis set_append takeWhile_dropWhile_id)
  ultimately have zin: "z \<in> set (dropWhile ?P q)" using z(1) by auto
  then obtain y ys where c: "dropWhile ?P q = y # ys" by (cases "dropWhile ?P q") auto
  have ny: "\<not> ?P y" using hd_dropWhile[of ?P q] c by (metis list.distinct(1) list.sel(1))
  have "sorted_wrt (\<lambda>x y. int32Data x < int32Data y) (takeWhile ?P q @ dropWhile ?P q)"
    using assms(1) by (simp add: sorted_wrt_map)
  then have "sorted_wrt (\<lambda>x y. int32Data x < int32Data y) (y # ys)"
    unfolding sorted_wrt_append c by blast
  then have "\<forall>v\<in>set ys. int32Data y < int32Data v" by simp
  then have "int32Data y = e" using zin ny z(2) unfolding c by auto
  then show ?thesis by (simp add: c)
qed

lemma queuePacket_rejects:
  assumes "sorted_wrt (<) (map int32Data (mQueue s))"
    and "\<not> (mNumBuffersReceived s = 0 \<and> mFirstSysTime s = 0)"
    and "extend_seq (mHighestSeqNumber s) (int32Data b) \<in> set (map int32Data (mQueue s))"
  shows "\<exists>s'. queuePacket s b t
            = Inr (False, b\<lparr>int32Data := extend_seq (mHighestSeqNumber s) (int32Data b)\<rparr>, s')
          \<and> mQueue s' = mQueue s
          \<and> mNumBuffersReceived s' = mNumBuffersReceived s + 1
          \<and> mFirstSysTime s' = mFirstSysTime s"
  using assms(2) duplicate_found[OF assms(1,3)]
  by (auto simp add: queuePacket_def Let_def)

lemma count_distinct_key:
  assumes "distinct (map f q)" and "e \<in> set (map f q)"
  shows "length (filter (\<lambda>x. f x = e) q) = 1"
  using assms
proof (induction q)
  case Nil
  then show ?case by simp
next
  case (Cons x q)
  show ?case
  proof (cases "f x = e")
    case True
    then have "e \<notin> f ` set q" using Cons.prems(1) by auto
    then have "filter (\<lambda>x. f x = e) q = []" by (auto simp add: filter_empty_conv)
    then show ?thesis using True by simp
  next
    case False
    then show ?thesis using Cons by auto
  qed
qed

lemma count_key_once:
  assumes "sorted_wrt (<) (map int32Data q)" and "e \<in> set (map int32Data q)"
  shows "length (filter (\<lambda>x. int32Data x = e) q) = 1"
proof -
  have "distinct (map int32Data q)" using assms(1) by (simp add: strict_sorted_iff)
  then show ?thesis by (rule count_distinct_key) (rule assms(2))
qed

lemma queuePacket_accepts:
  assumes "queuePacket s b t = Inr (True, b1, s1)"
  shows "int32Data b1 \<in> set (map int32Data (mQueue s1))
       \<and> length (mQueue s1) = Suc (length (mQueue s))
       \<and> mNumBuffersReceived s1 = mNumBuffersReceived s + 1
       \<and> (if mNumBuffersReceived s = 0 \<and> mFirstSysTime s = 0
           then b1 = b \<and> mHighestSeqNumber s1 = int32Data b
           else b1 = b\<lparr>int32Data := extend_seq (mHighestSeqNumber s) (int32Data b)\<rparr>
              \<and> mHighestSeqNumber s1 = max (mHighestSeqNumber s) (int32Data b1)
              \<and> mFirstSysTime s1 = mFirstSysTime s)"
proof (cases "mNumBuffersReceived s = 0 \<and> mFirstSysTime s = 0")
  case True
  then show ?thesis using assms
    by (auto simp add: queuePacket_def Let_def split: option.splits)
next
  case False
  define e where "e = extend_seq (mHighestSeqNumber s) (int32Data b)"
  have "length (takeWhile (\<lambda>b. int32Data b < e) (mQueue s)) + length (dropWhile (\<lambda>b. int32Data b < e) (mQueue s))
      = length (mQueue s)"
    by (metis length_append takeWhile_dropWhile_id)
  then show ?thesis using assms False
    by (auto simp add: queuePacket_def Let_def max_def e_def split: if_splits)
qed

lemma queuePacket_resolved:
  assumes "queuePacket s b t = Inr (ok, b', s')"
  shows "b' = b\<lparr>int32Data := resolved s b\<rparr>"
  using assms
  by (auto simp add: queuePacket_def resolved_def Let_def split: option.splits if_splits)

lemma queuePacket_new:
  assumes "\<not> (mNumBuffersReceived s = 0 \<and> mFirstSysTime s = 0) \<or> meta_rtp_time b \<noteq> None"
    and "resolved s b \<notin> set (map int32Data (mQueue s))"
  shows "\<exists>s1. queuePacket s b t = Inr (True, b\<lparr>int32Data := resolved s b\<rparr>, s1)
            \<and> length (mQueue s1) = length (mQueue s) + 1
            \<and> mNumBuffersReceived s1 = mNumBuffersReceived s + 1"
proof (cases "mNumBuffersReceived s = 0 \<and> mFirstSysTime s = 0")
  case True
  then show ?thesis using assms(1)
    by (auto simp add: queuePacket_def resolved_def Let_def split: option.splits)
next
  case False
  define e where "e = extend_seq (mHighestSeqNumber s) (int32Data b)"
  let ?rest = "dropWhile (\<lambda>b. int32Data b < e) (mQueue s)"
  have e: "resolved s b = e" using False by (auto simp add: resolved_def e_def)
  have "\<not> (?rest \<noteq> [] \<and> int32Data (hd ?rest) = e)"
  proof
    assume a: "?rest \<noteq> [] \<and> int32Data (hd ?rest) = e"
    then have "hd ?rest \<in> set ?rest" by simp
    then have "hd ?rest \<in> set (mQueue s)" by (rule set_dropWhileD)
    then have "int32Data (hd ?rest) \<in> int32Data ` set (mQueue s)" by (rule imageI)
    then show False using a assms(2) e by simp
  qed
  moreover have "length (takeWhile (\<lambda>b. int32Data b < e) (mQueue s)) + length ?rest = length (mQueue s)"
    by (metis length_append takeWhile_dropWhile_id)
  ultimately show ?thesis using False
    by (auto simp add: queuePacket_def resolved_def Let_def e_def)
qed

text \<open>
  Claim C4. Let \<open>s\<close> be a state a freshly constructed source reaches by any
  sequence of calls that meet their conditions, and \<open>b\<close> a packet. (1) If the
  extended sequence number \<open>queuePacket\<close> resolves for \<open>b\<close> is the key of a queue
  entry, \<open>queuePacket\<close> returns false and leaves the queue as it was, with exactly
  one entry of that key, while \<open>mNumBuffersReceived\<close> has grown by one. (2) If it
  is the key of no queue entry (\<open>b\<close> carrying a 16-bit number and an RTP time),
  \<open>queuePacket\<close> returns true and the queue has one entry more; handing \<open>b\<close> in
  again at once returns false and leaves the queue as the first call left it,
  with exactly one entry of that key: after the two calls the counter has grown
  by two and the queue by one.
\<close>

theorem duplicate_rejected_but_counted:
  assumes "new_ARTPSource ident desc rawSupports initCheck seed qm self = Inr s0"
    and "in_contract ext s0 cs" and "run ext s0 cs = Inr s"
  shows "(resolved s b \<in> set (map int32Data (mQueue s)) \<longrightarrow>
          (\<exists>s'. queuePacket s b t = Inr (False, b\<lparr>int32Data := resolved s b\<rparr>, s')
              \<and> mQueue s' = mQueue s
              \<and> length (filter (\<lambda>x. int32Data x = resolved s b) (mQueue s')) = 1
              \<and> mNumBuffersReceived s' = mNumBuffersReceived s + 1))
       \<and> (resolved s b \<notin> set (map int32Data (mQueue s)) \<longrightarrow>
          int32Data b < 0x10000 \<longrightarrow> meta_rtp_time b \<noteq> None \<longrightarrow>
          (\<exists>s1 s2. queuePacket s b t = Inr (True, b\<lparr>int32Data := resolved s b\<rparr>, s1)
              \<and> length (mQueue s1) = length (mQueue s) + 1
              \<and> mNumBuffersReceived s1 = mNumBuffersReceived s + 1
              \<and> queuePacket s1 b t2 = Inr (False, b\<lparr>int32Data := resolved s b\<rparr>, s2)
              \<and> mQueue s2 = mQueue s1
              \<and> length (filter (\<lambda>x. int32Data x = resolved s b) (mQueue s2)) = 1
              \<and> length (mQueue s2) = length (mQueue s) + 1
              \<and> mNumBuffersReceived s2 = mNumBuffersReceived s + 2))"
proof -
  have inv: "baseline_inv s"
    using run_baseline_inv[OF new_baseline_inv[OF assms(1)] assms(2,3)] .
  then have sorted0: "sorted_wrt (<) (map int32Data (mQueue s))"
    and emp: "mNumBuffersReceived s = 0 \<and> mFirstSysTime s = 0 \<Longrightarrow> mQueue s = []"
    and cnt: "mFirstSysTime s = 0 \<Longrightarrow> mNumBuffersReceived s = 0"
    by (simp_all add: baseline_inv_def ascending_def queue_keys_def)
  have one: "\<exists>s'. queuePacket s b t = Inr (False, b\<lparr>int32Data := resolved s b\<rparr>, s')
              \<and> mQueue s' = mQueue s
              \<and> length (filter (\<lambda>x. int32Data x = resolved s b) (mQueue s')) = 1
              \<and> mNumBuffersReceived s' = mNumBuffersReceived s + 1"
    if d: "resolved s b \<in> set (map int32Data (mQueue s))"
  proof -
    have nb: "\<not> (mNumBuffersReceived s = 0 \<and> mFirstSysTime s = 0)" using d emp by auto
    then have r: "resolved s b = extend_seq (mHighestSeqNumber s) (int32Data b)"
      by (auto simp add: resolved_def)
    show ?thesis
      using queuePacket_rejects[OF sorted0 nb d[unfolded r], of t] count_key_once[OF sorted0 d]
      unfolding r by auto
  qed
  have two: "\<exists>s1 s2. queuePacket s b t = Inr (True, b\<lparr>int32Data := resolved s b\<rparr>, s1)
              \<and> length (mQueue s1) = length (mQueue s) + 1
              \<and> mNumBuffersReceived s1 = mNumBuffersReceived s + 1
              \<and> queuePacket s1 b t2 = Inr (False, b\<lparr>int32Data := resolved s b\<rparr>, s2)
              \<and> mQueue s2 = mQueue s1
              \<and> length (filter (\<lambda>x. int32Data x = resolved s b) (mQueue s2)) = 1
              \<and> length (mQueue s2) = length (mQueue s) + 1
              \<and> mNumBuffersReceived s2 = mNumBuffersReceived s + 2"
    if n: "resolved s b \<notin> set (map int32Data (mQueue s))"
      and w: "int32Data b < 0x10000" and m: "meta_rtp_time b \<noteq> None"
  proof -
    define b1 where "b1 = b\<lparr>int32Data := resolved s b\<rparr>"
    obtain s1 where first: "queuePacket s b t = Inr (True, b1, s1)"
      and len1: "length (mQueue s1) = length (mQueue s) + 1"
      and cnt1: "mNumBuffersReceived s1 = mNumBuffersReceived s + 1"
      using queuePacket_new[OF _ n, of t] m unfolding b1_def by blast
    note acc = queuePacket_accepts[OF first]
    have sorted1: "sorted_wrt (<) (map int32Data (mQueue s1))"
      using queuePacket_ascending[OF _ emp first] sorted0 by (simp add: ascending_def queue_keys_def)
    have nb1: "\<not> (mNumBuffersReceived s1 = 0 \<and> mFirstSysTime s1 = 0)"
    proof (cases "mNumBuffersReceived s = 0 \<and> mFirstSysTime s = 0")
      case True
      then show ?thesis using acc by simp
    next
      case False
      then have "mFirstSysTime s1 = mFirstSysTime s" using acc by simp
      moreover have "mFirstSysTime s \<noteq> 0" using False cnt by auto
      ultimately show ?thesis by simp
    qed
    have again: "extend_seq (mHighestSeqNumber s1) (int32Data b) = int32Data b1"
    proof (cases "mNumBuffersReceived s = 0 \<and> mFirstSysTime s = 0")
      case True
      then have b1: "b1 = b" "mHighestSeqNumber s1 = int32Data b" using acc by simp_all
      have "take_bit 16 (int32Data b) = int32Data b" using w_take[OF w] .
      then have "wire (int32Data b) = int32Data b"
        by (simp add: wire_def take_bit_eq_mask mask_eq_exp_minus_1)
      moreover have "AbsDiff (int32Data b) (int32Data b) < 0x8000" by (simp add: AbsDiff_def)
      ultimately show ?thesis using extend_seq_window[of "int32Data b" "int32Data b"] b1 by simp
    next
      case False
      then have "int32Data b1 = extend_seq (mHighestSeqNumber s) (int32Data b)"
        and "mHighestSeqNumber s1 = max (mHighestSeqNumber s) (extend_seq (mHighestSeqNumber s) (int32Data b))"
        using acc by simp_all
      then show ?thesis using extend_seq_stable[OF w, of "mHighestSeqNumber s"] by simp
    qed
    have key: "int32Data b1 = resolved s b" by (simp add: b1_def)
    have b1: "b\<lparr>int32Data := int32Data b1\<rparr> = b1" by (simp add: b1_def)
    have d1: "extend_seq (mHighestSeqNumber s1) (int32Data b) \<in> set (map int32Data (mQueue s1))"
      using acc again by simp
    obtain s2 where second: "queuePacket s1 b t2 = Inr (False, b1, s2)" and q2: "mQueue s2 = mQueue s1"
      and cnt2: "mNumBuffersReceived s2 = mNumBuffersReceived s1 + 1"
      using queuePacket_rejects[OF sorted1 nb1 d1, of t2] again b1 by auto
    have once: "length (filter (\<lambda>x. int32Data x = resolved s b) (mQueue s2)) = 1"
      using count_key_once[OF sorted1 d1] again key q2 by simp
    have A: "queuePacket s b t = Inr (True, b\<lparr>int32Data := resolved s b\<rparr>, s1)"
      using first by (simp add: b1_def)
    have B: "queuePacket s1 b t2 = Inr (False, b\<lparr>int32Data := resolved s b\<rparr>, s2)"
      using second by (simp add: b1_def)
    have C: "length (mQueue s2) = length (mQueue s) + 1" using q2 len1 by simp
    have D: "mNumBuffersReceived s2 = mNumBuffersReceived s + 2" using cnt1 cnt2 by simp
    show ?thesis
      by (intro exI[of _ s1] exI[of _ s2] conjI) (fact A len1 cnt1 B q2 once C D)+
  qed
  show ?thesis using one two by blast
qed

lemma run57:
  "in_contract ext0 src0 [ProcessRTPPacket (pkt 5) 1000, ProcessRTPPacket (pkt 7) 2000]"
  "run ext0 src0 [ProcessRTPPacket (pkt 5) 1000, ProcessRTPPacket (pkt 7) 2000] = Inr src57"
  by (simp_all add: processRTPPacket_def queuePacket_def extend_seq_def AbsDiff_def
      onPacketReceived_def ext0_def src0_def src57_def pkt_def Let_def)

lemma src57_resolved: "resolved src57 (pkt 7) = 7" "resolved src57 (pkt 6) = 6"
  by (simp_all add: resolved_def src57_def src0_def pkt_def extend_seq_def AbsDiff_def)

lemma src0_resolved: "resolved src0 (pkt 5) = 5"
  by (simp add: resolved_def src0_def pkt_def)

lemma run_nil: "in_contract ext0 src0 []" "run ext0 src0 [] = Inr src0"
  by simp_all

theorem duplicate_rejected_but_counted_witness:
  "new_ARTPSource 7 ''H264/90000'' False True 0 qm0 0xdeadbeef = Inr src0
   \<and> in_contract ext0 src0 [ProcessRTPPacket (pkt 5) 1000, ProcessRTPPacket (pkt 7) 2000]
   \<and> run ext0 src0 [ProcessRTPPacket (pkt 5) 1000, ProcessRTPPacket (pkt 7) 2000] = Inr src57
   \<and> mQueue src57 = [pkt 5, pkt 7] \<and> mNumBuffersReceived src57 = 2
   \<and> resolved src57 (pkt 7) \<in> set (map int32Data (mQueue src57))
   \<and> (\<exists>s'. queuePacket src57 (pkt 7) 3000 = Inr (False, pkt 7, s')
          \<and> mQueue s' = [pkt 5, pkt 7]
          \<and> length (filter (\<lambda>x. int32Data x = 7) (mQueue s')) = 1
          \<and> mNumBuffersReceived s' = 3)
   \<and> resolved src57 (pkt 6) \<notin> set (map int32Data (mQueue src57))
   \<and> int32Data (pkt 6) < 0x10000 \<and> meta_rtp_time (pkt 6) \<noteq> None
   \<and> (\<exists>s1 s2. queuePacket src57 (pkt 6) 3000 = Inr (True, pkt 6, s1)
          \<and> length (mQueue s1) = 3
          \<and> mNumBuffersReceived s1 = 3
          \<and> queuePacket s1 (pkt 6) 4000 = Inr (False, pkt 6, s2)
          \<and> mQueue s2 = mQueue s1
          \<and> length (filter (\<lambda>x. int32Data x = 6) (mQueue s2)) = 1
          \<and> length (mQueue s2) = 3
          \<and> mNumBuffersReceived s2 = 4)
   \<and> in_contract ext0 src0 [] \<and> run ext0 src0 [] = Inr src0
   \<and> resolved src0 (pkt 5) \<notin> set (map int32Data (mQueue src0))
   \<and> int32Data (pkt 5) < 0x10000 \<and> meta_rtp_time (pkt 5) \<noteq> None
   \<and> (\<exists>s1 s2. queuePacket src0 (pkt 5) 1000 = Inr (True, pkt 5, s1)
          \<and> length (mQueue s1) = 1
          \<and> mNumBuffersReceived s1 = 1
          \<and> queuePacket s1 (pkt 5) 2000 = Inr (False, pkt 5, s2)
          \<and> mQueue s2 = mQueue s1
          \<and> length (filter (\<lambda>x. int32Data x = 5) (mQueue s2)) = 1
          \<and> length (mQueue s2) = 1
          \<and> mNumBuffersReceived s2 = 2)"
proof -
  have q: "mQueue src57 = [pkt 5, pkt 7]" "mNumBuffersReceived src57 = 2"
    by (simp_all add: src57_def)
  have q0: "mQueue src0 = []" "mNumBuffersReceived src0 = 0"
    by (simp_all add: src0_def)
  have p: "pkt 7\<lparr>int32Data := 7\<rparr> = pkt 7" "pkt 6\<lparr>int32Data := 6\<rparr> = pkt 6"
      "pkt 5\<lparr>int32Data := 5\<rparr> = pkt 5"
    by (simp_all add: pkt_def)
  have h7: "resolved src57 (pkt 7) \<in> set (map int32Data (mQueue src57))"
    unfolding src57_resolved q by (simp add: pkt_def)
  have h6: "resolved src57 (pkt 6) \<notin> set (map int32Data (mQueue src57))"
    unfolding src57_resolved q by (simp add: pkt_def)
  have h5: "resolved src0 (pkt 5) \<notin> set (map int32Data (mQueue src0))"
    by (simp add: q0)
  have w: "int32Data (pkt 6) < 0x10000" "meta_rtp_time (pkt 6) \<noteq> None"
      "int32Data (pkt 5) < 0x10000" "meta_rtp_time (pkt 5) \<noteq> None"
    by (simp_all add: pkt_def)
  have A: "\<exists>s'. queuePacket src57 (pkt 7) 3000 = Inr (False, pkt 7, s')
          \<and> mQueue s' = [pkt 5, pkt 7]
          \<and> length (filter (\<lambda>x. int32Data x = 7) (mQueue s')) = 1
          \<and> mNumBuffersReceived s' = 3"
    using duplicate_rejected_but_counted[OF new_src0 run57, where b = "pkt 7" and t = 3000,
        THEN conjunct1, rule_format, OF h7]
    by (simp add: src57_resolved p q)
  have B: "\<exists>s1 s2. queuePacket src57 (pkt 6) 3000 = Inr (True, pkt 6, s1)
          \<and> length (mQueue s1) = 3
          \<and> mNumBuffersReceived s1 = 3
          \<and> queuePacket s1 (pkt 6) 4000 = Inr (False, pkt 6, s2)
          \<and> mQueue s2 = mQueue s1
          \<and> length (filter (\<lambda>x. int32Data x = 6) (mQueue s2)) = 1
          \<and> length (mQueue s2) = 3
          \<and> mNumBuffersReceived s2 = 4"
    using duplicate_rejected_but_counted[OF new_src0 run57, where b = "pkt 6" and t = 3000
        and ?t2.0 = 4000, THEN conjunct2, rule_format, OF h6 w(1,2)]
    by (simp add: src57_resolved p q numeral_3_eq_3)
  have C: "\<exists>s1 s2. queuePacket src0 (pkt 5) 1000 = Inr (True, pkt 5, s1)
          \<and> length (mQueue s1) = 1
          \<and> mNumBuffersReceived s1 = 1
          \<and> queuePacket s1 (pkt 5) 2000 = Inr (False, pkt 5, s2)
          \<and> mQueue s2 = mQueue s1
          \<and> length (filter (\<lambda>x. int32Data x = 5) (mQueue s2)) = 1
          \<and> length (mQueue s2) = 1
          \<and> mNumBuffersReceived s2 = 2"
    using duplicate_rejected_but_counted[OF new_src0 run_nil, where b = "pkt 5" and t = 1000
        and ?t2.0 = 2000, THEN conjunct2, rule_format, OF h5 w(3,4)]
    by (simp add: src0_resolved p q0)
  show ?thesis
    by (intro conjI) (fact new_src0 run57 q h7 A h6 w B run_nil h5 C)+
qed

section \<open>The highest sequence number\<close>

lemma processRTPPacket_frame:
  assumes "processRTPPacket ext s b t = Inr (b', s')"
  shows "mLastNTPTime s' = mLastNTPTime s" "mLastFIRRequestUs s' = mLastFIRRequestUs s"
  using assms
  by (auto simp add: processRTPPacket_def queuePacket_def Let_def split: option.splits sum.splits if_splits)

lemma processRTPPacket_highest:
  assumes "processRTPPacket ext s b t = Inr (b', s')"
    and "\<not> (mAssembler s \<noteq> None \<and> mNumBuffersReceived s = 0 \<and> mFirstSysTime s = 0)"
  shows "mHighestSeqNumber s \<le> mHighestSeqNumber s' \<and> mFirstSysTime s' = mFirstSysTime s"
proof (cases "mAssembler s")
  case None
  then show ?thesis using assms(1) by (simp add: processRTPPacket_def)
next
  case (Some a)
  then have nz: "mNumBuffersReceived s \<noteq> 0 \<or> mFirstSysTime s \<noteq> 0" using assms(2) by auto
  show ?thesis
    using processRTPPacket_later[OF nz, of ext b t] Some assms(1) by auto
qed

lemma processRTPPacket_first:
  assumes "processRTPPacket ext s b t = Inr (b', s')"
    and "mAssembler s \<noteq> None \<and> mNumBuffersReceived s = 0 \<and> mFirstSysTime s = 0"
  shows "mHighestSeqNumber s' = int32Data b"
  using assms
  by (auto simp add: processRTPPacket_def queuePacket_def Let_def split: option.splits sum.splits)

text \<open>
  One call outside the first-packet branch of \<open>queuePacket\<close> does not lower
  \<open>mHighestSeqNumber\<close> and keeps \<open>mFirstSysTime\<close>.
\<close>

lemma step_highest:
  assumes "step ext s c = Inr s'"
    and "mFirstSysTime s \<noteq> 0"
  shows "mHighestSeqNumber s \<le> mHighestSeqNumber s' \<and> mFirstSysTime s' \<noteq> 0"
proof (cases c)
  case (ProcessRTPPacket b t)
  then obtain b' where "processRTPPacket ext s b t = Inr (b', s')"
    using assms(1) by (cases "processRTPPacket ext s b t") auto
  then show ?thesis using processRTPPacket_highest[of ext s b t b' s'] assms(2) by simp
next
  case (AddTMMBR b)
  then obtain b' where "addTMMBR s b = Inr (b', s')"
    using assms(1) by (cases "addTMMBR s b") auto
  then show ?thesis using addTMMBR_frame assms(2) by auto
qed (use assms in \<open>auto simp add: timeUpdate_def byeReceived_def addFIR_frame addReceiverReport_frame
      setSelfID_def setMinMaxBitrate_src_def noticeAbandonBuffer_def\<close>)

lemma run_highest:
  assumes "run ext s cs = Inr s'" and "mFirstSysTime s \<noteq> 0"
  shows "mHighestSeqNumber s \<le> mHighestSeqNumber s' \<and> mFirstSysTime s' \<noteq> 0"
  using assms
proof (induction cs arbitrary: s)
  case Nil
  then show ?case by simp
next
  case (Cons c cs)
  then obtain s1 where s1: "step ext s c = Inr s1" "run ext s1 cs = Inr s'"
    by (cases "step ext s c") auto
  have "mHighestSeqNumber s \<le> mHighestSeqNumber s1" "mFirstSysTime s1 \<noteq> 0"
    using step_highest[OF s1(1) Cons.prems(2)] by simp_all
  moreover have "mHighestSeqNumber s1 \<le> mHighestSeqNumber s' \<and> mFirstSysTime s' \<noteq> 0"
    using Cons.IH[OF s1(2)] calculation(2) by simp
  ultimately show ?case by auto
qed

text \<open>
  Claim C2. Let \<open>s\<close> be a state a freshly constructed source reaches by any
  sequence of calls (packets, time updates, BYE, the three report builders,
  \<open>setSelfID\<close>, \<open>setMinMaxBitrate\<close>, \<open>noticeAbandonBuffer\<close>, in any order) that meet
  their conditions. Then one more such call, whichever it is, leaves
  \<open>mHighestSeqNumber\<close> greater than or equal to its value in \<open>s\<close>.
\<close>

theorem highest_never_decreases:
  assumes "new_ARTPSource ident desc rawSupports initCheck seed qm self = Inr s0"
    and "in_contract ext s0 cs" and "run ext s0 cs = Inr s"
    and "call_in_contract s c" and "step ext s c = Inr s'"
  shows "mHighestSeqNumber s \<le> mHighestSeqNumber s'"
proof (cases "mFirstSysTime s = 0")
  case True
  have "baseline_inv s"
    using run_baseline_inv[OF new_baseline_inv[OF assms(1)] assms(2,3)] .
  then have "mHighestSeqNumber s = 0" using True by (simp add: baseline_inv_def)
  then show ?thesis by simp
next
  case False
  then show ?thesis using step_highest[OF assms(5)] by simp
qed

lemma run_contract_example:
  "in_contract ext0 src0 [ProcessRTPPacket (pkt 5) 1000, NoticeAbandonBuffer 1, AddTMMBR out64]"
  "run ext0 src0 [ProcessRTPPacket (pkt 5) 1000, NoticeAbandonBuffer 1, AddTMMBR out64] = Inr src5a"
  by (simp_all add: processRTPPacket_def queuePacket_def onPacketReceived_def
      noticeAbandonBuffer_def addTMMBR_def out64_def qm0_def word_sle_eq
      ext0_def src0_def src5a_def pkt_def Let_def)

lemma step_contract_example:
  "step ext0 src5a (ProcessRTPPacket (pkt 3) 2000)
     = Inr (src5a\<lparr>mNumBuffersReceived := 1, mQueue := [pkt 3, pkt 5]\<rparr>)"
  by (simp add: processRTPPacket_def queuePacket_def extend_seq_def AbsDiff_def
      onPacketReceived_def ext0_def src0_def src5a_def pkt_def Let_def)

theorem highest_never_decreases_witness:
  "new_ARTPSource 7 ''H264/90000'' False True 0 qm0 0xdeadbeef = Inr src0
   \<and> in_contract ext0 src0 [ProcessRTPPacket (pkt 5) 1000, NoticeAbandonBuffer 1, AddTMMBR out64]
   \<and> run ext0 src0 [ProcessRTPPacket (pkt 5) 1000, NoticeAbandonBuffer 1, AddTMMBR out64] = Inr src5a
   \<and> call_in_contract src5a (ProcessRTPPacket (pkt 3) 2000)
   \<and> step ext0 src5a (ProcessRTPPacket (pkt 3) 2000)
       = Inr (src5a\<lparr>mNumBuffersReceived := 1, mQueue := [pkt 3, pkt 5]\<rparr>)
   \<and> mHighestSeqNumber src5a = 5
   \<and> mHighestSeqNumber src5a
       \<le> mHighestSeqNumber (src5a\<lparr>mNumBuffersReceived := 1, mQueue := [pkt 3, pkt 5]\<rparr>)"
proof -
  have c: "call_in_contract src5a (ProcessRTPPacket (pkt 3) 2000)" by simp
  have h: "mHighestSeqNumber src5a = 5" by (simp add: src5a_def)
  have "mHighestSeqNumber src5a
       \<le> mHighestSeqNumber (src5a\<lparr>mNumBuffersReceived := 1, mQueue := [pkt 3, pkt 5]\<rparr>)"
    using highest_never_decreases[OF new_src0 run_contract_example c step_contract_example] .
  then show ?thesis
    using new_src0 run_contract_example c step_contract_example h by (intro conjI)
qed

text \<open>
  The condition on \<open>noticeAbandonBuffer\<close> is needed. A notice for a buffer that
  was never counted, given before the first packet, makes the counter \<open>-1\<close>; the
  packet with number 5 then misses the first-packet branch, and the next packet,
  number 3, takes it and sets \<open>mHighestSeqNumber\<close> to 3.
\<close>

lemma abandon_before_first_packet:
  "\<not> in_contract ext0 src0 [NoticeAbandonBuffer 1, ProcessRTPPacket (pkt 5) 1000]
   \<and> run ext0 src0 [NoticeAbandonBuffer 1, ProcessRTPPacket (pkt 5) 1000]
     = Inr (src0\<lparr>mHighestSeqNumber := 5, mQueue := [pkt 5]\<rparr>)
   \<and> step ext0 (src0\<lparr>mHighestSeqNumber := 5, mQueue := [pkt 5]\<rparr>) (ProcessRTPPacket (pkt 3) 2000)
     = Inr (src0\<lparr>mFirstSysTime := 2000, mClockRate := 90000, mHighestSeqNumber := 3,
                  mBaseSeqNumber := 3, mNumBuffersReceived := 1, mQueue := [pkt 5, pkt 3]\<rparr>)"
  by (simp add: processRTPPacket_def queuePacket_def extend_seq_def AbsDiff_def
      onPacketReceived_def noticeAbandonBuffer_def word_sle_eq
      ext0_def src0_def pkt_def Let_def)

section \<open>The loss fields of the receiver report\<close>

lemma stb63:
  "- 9223372036854775808 \<le> k \<Longrightarrow> k < 9223372036854775808 \<Longrightarrow> signed_take_bit 63 k = k"
  for k :: int
  using signed_take_bit_int_eq_self[of 63 k] by simp

lemma interval_bounds:
  fixes e d :: "32 word"
  shows "0 \<le> uint e" "uint e < 4294967296" "- 2147483648 \<le> sint d" "sint d < 2147483648"
  using uint_bounded[of e] sint_ge[of d] sint_lt[of d] by simp_all

lemma sint_intervalExpected:
  "sint (intervalExpected s) = uint (rr_expected s - mPrevExpected s)"
proof -
  note b = interval_bounds(1,2)[of "rr_expected s - mPrevExpected s"]
  have "signed_take_bit 63 (uint (rr_expected s - mPrevExpected s))
      = uint (rr_expected s - mPrevExpected s)"
    by (rule stb63) (use b in linarith)+
  then show ?thesis
    unfolding intervalExpected_def by (simp add: signed_ucast_eq)
qed

lemma sint_intervalReceived:
  "sint (intervalReceived s) = sint (mNumBuffersReceived s - mPrevNumBuffersReceived s)"
proof -
  let ?d = "mNumBuffersReceived s - mPrevNumBuffersReceived s"
  note b = interval_bounds(3,4)[of ?d]
  have "signed_take_bit 63 (sint ?d) = sint ?d"
    by (rule stb63) (use b in linarith)+
  then show ?thesis
    unfolding intervalReceived_def by (simp add: signed_scast_eq)
qed

lemma sint_intervalPacketLost:
  "sint (intervalPacketLost s)
     = uint (rr_expected s - mPrevExpected s)
       - sint (mNumBuffersReceived s - mPrevNumBuffersReceived s)"
proof -
  let ?e = "rr_expected s - mPrevExpected s"
  let ?d = "mNumBuffersReceived s - mPrevNumBuffersReceived s"
  note b = interval_bounds(1,2)[of ?e] interval_bounds(3,4)[of ?d]
  have "signed_take_bit 63 (uint ?e - sint ?d) = uint ?e - sint ?d"
    by (rule stb63) (use b in linarith)+
  then show ?thesis
    unfolding intervalPacketLost_def
    by (simp add: sint_word_diff sint_intervalExpected sint_intervalReceived)
qed

lemma sint_lost_shifted:
  "sint (push_bit 8 (intervalPacketLost s)) = 256 * sint (intervalPacketLost s)"
proof -
  let ?e = "rr_expected s - mPrevExpected s"
  let ?d = "mNumBuffersReceived s - mPrevNumBuffersReceived s"
  note b = interval_bounds(1,2)[of ?e] interval_bounds(3,4)[of ?d]
  have "- 8589934592 \<le> uint ?e - sint ?d" "uint ?e - sint ?d < 8589934592"
    using b by linarith+
  then have "- 9223372036854775808 \<le> 256 * (uint ?e - sint ?d)"
      "256 * (uint ?e - sint ?d) < 9223372036854775808"
    by simp_all
  then have "signed_take_bit 63 (256 * (uint ?e - sint ?d)) = 256 * (uint ?e - sint ?d)"
    by (rule stb63)
  then have "signed_take_bit 63 (push_bit 8 (sint (intervalPacketLost s)))
      = 256 * sint (intervalPacketLost s)"
    by (simp add: push_bit_eq_mult sint_intervalPacketLost mult.commute)
  then show ?thesis
    by (simp only: signed_push_bit_eq) simp
qed

text \<open>
  The fraction byte in integers: \<open>IE\<close> is the interval's expected count, \<open>IL\<close>
  the interval's lost count; the byte is the quotient modulo 256.
\<close>

lemma uint_rr_fraction:
  fixes s :: ARTPSource
  defines "IE \<equiv> uint (rr_expected s - mPrevExpected s)"
  defines "IL \<equiv> IE - sint (mNumBuffersReceived s - mPrevNumBuffersReceived s)"
  shows "uint (rr_fraction s) = (if 0 < IE \<and> 0 < IL then (256 * IL div IE) mod 256 else 0)"
proof (cases "0 < IE \<and> 0 < IL")
  case True
  then have g: "0 <s intervalExpected s \<and> 0 <s intervalPacketLost s"
    by (simp add: word_sless_alt sint_intervalExpected sint_intervalPacketLost IE_def IL_def)
  have "sint (push_bit 8 (intervalPacketLost s)) sdiv sint (intervalExpected s) = 256 * IL div IE"
    using True
    by (simp add: sint_lost_shifted sint_intervalExpected sint_intervalPacketLost IE_def IL_def
        signed_divide_int_def sgn_if)
  then have "rr_fraction s = ucast (word_of_int (256 * IL div IE) :: i64)"
    using g by (simp add: rr_fraction_def sdiv64_def)
  also have "\<dots> = (word_of_int (256 * IL div IE) :: u8)"
    by (simp add: ucast_eq unsigned_of_int word_of_int_eq_iff)
  finally show ?thesis using True by (simp add: uint_word_of_int take_bit_eq_mod)
next
  case False
  then have "\<not> (0 <s intervalExpected s \<and> 0 <s intervalPacketLost s)"
    by (simp add: word_sless_alt sint_intervalExpected sint_intervalPacketLost IE_def IL_def)
  then have "rr_fraction s = 0" unfolding rr_fraction_def by (rule if_not_P)
  then show ?thesis using False by auto
qed

lemma length_be32 [simp]: "length (be32 x) = 4"
  by (simp add: be32_def)

lemma length_rr_block: "length (rr_block ext s nowUs) = 32"
  by (simp add: rr_block_def)

lemma rr_block_fraction: "rr_block ext s nowUs ! 12 = rr_fraction s"
  by (simp add: rr_block_def be32_def)

lemma rr_block_cumulative:
  "decode_cumulative_lost (rr_block ext s nowUs) = signed_take_bit 23 (cumulativePacketLost s)"
proof -
  let ?c = "cumulativePacketLost s"
  have b: "rr_block ext s nowUs ! 13 = ucast (signed_drop_bit 16 ?c)"
      "rr_block ext s nowUs ! 14 = ucast (signed_drop_bit 8 ?c AND 0xff)"
      "rr_block ext s nowUs ! 15 = ucast (?c AND 0xff)"
    by (simp_all add: rr_block_def be32_def)
  have m: "x AND 0xff = take_bit 8 x" for x :: i32
    by (simp add: take_bit_eq_mask mask_eq_exp_minus_1)
  have "(push_bit 16 (ucast (ucast (signed_drop_bit 16 ?c) :: u8)) OR
         push_bit 8 (ucast (ucast (take_bit 8 (signed_drop_bit 8 ?c)) :: u8)) OR
         ucast (ucast (take_bit 8 ?c) :: u8) :: i32) = take_bit 24 ?c"
  proof (rule bit_word_eqI)
    fix n assume "n < LENGTH(32)"
    consider "n < 8" | "8 \<le> n" "n < 16" | "16 \<le> n" "n < 24" | "24 \<le> n" by linarith
    then show "bit (push_bit 16 (ucast (ucast (signed_drop_bit 16 ?c) :: u8)) OR
         push_bit 8 (ucast (ucast (take_bit 8 (signed_drop_bit 8 ?c)) :: u8)) OR
         ucast (ucast (take_bit 8 ?c) :: u8) :: i32) n = bit (take_bit 24 ?c) n"
      by cases (auto simp add: bit_simps)
  qed
  then show ?thesis
    unfolding decode_cumulative_lost_def b m by (simp add: signed_take_bit_take_bit)
qed

text \<open>
  Claim C5, as amended. With room for 32 bytes, \<open>addReceiverReport\<close> appends a
  32-byte block whose byte 12 is the fraction and whose bytes 13 to 15 decode to
  the low 24 bits of \<open>cumulativePacketLost = expected - mNumBuffersReceived\<close>
  (32-bit, not clamped). With \<open>IE\<close> the interval's expected count and \<open>IL\<close> its
  lost count, the fraction byte is \<open>(IL << 8) / IE\<close> modulo 256 when both are
  positive and 0 otherwise; it is the quotient itself whenever \<open>IL < IE\<close>. For
  base 100, highest 109, 8 received and no earlier report the block carries
  fraction 51 and cumulative count 2, and both decode from it.
\<close>

theorem receiver_report_loss_fields:
  fixes s :: ARTPSource
  defines "IE \<equiv> uint (rr_expected s - mPrevExpected s)"
  defines "IL \<equiv> IE - sint (mNumBuffersReceived s - mPrevNumBuffersReceived s)"
  assumes room: "length (bytes buffer) + 32 \<le> capacity buffer"
  shows "bytes (fst (addReceiverReport ext s buffer nowUs)) = bytes buffer @ rr_block ext s nowUs
       \<and> length (rr_block ext s nowUs) = 32
       \<and> decode_fraction_lost (rr_block ext s nowUs) = rr_fraction s
       \<and> uint (rr_fraction s) = (if 0 < IE \<and> 0 < IL then (256 * IL div IE) mod 256 else 0)
       \<and> (IL < IE \<longrightarrow> uint (rr_fraction s) = (if 0 < IE \<and> 0 < IL then 256 * IL div IE else 0))
       \<and> cumulativePacketLost s = mHighestSeqNumber s - mBaseSeqNumber s + 1 - mNumBuffersReceived s
       \<and> decode_cumulative_lost (rr_block ext s nowUs) = signed_take_bit 23 (cumulativePacketLost s)
       \<and> (mBaseSeqNumber s = 100 \<and> mHighestSeqNumber s = 109 \<and> mNumBuffersReceived s = 8
            \<and> mPrevExpected s = 0 \<and> mPrevNumBuffersReceived s = 0 \<longrightarrow>
          decode_fraction_lost (rr_block ext s nowUs) = 51
          \<and> decode_cumulative_lost (rr_block ext s nowUs) = 2)"
proof -
  have f: "uint (rr_fraction s) = (if 0 < IE \<and> 0 < IL then (256 * IL div IE) mod 256 else 0)"
    unfolding IE_def IL_def by (rule uint_rr_fraction)
  have small: "uint (rr_fraction s) = (if 0 < IE \<and> 0 < IL then 256 * IL div IE else 0)" if "IL < IE"
  proof (cases "0 < IE \<and> 0 < IL")
    case True
    define q where "q = 256 * IL div IE"
    have "IE * q + 256 * IL mod IE = 256 * IL" unfolding q_def by (rule mult_div_mod_eq)
    moreover have "0 \<le> 256 * IL mod IE" using True by simp
    ultimately have "IE * q < IE * 256" using that by linarith
    then have "q < 256" using True by (simp add: mult_less_cancel_left_pos)
    moreover have "0 \<le> q" unfolding q_def using True by (simp add: pos_imp_zdiv_nonneg_iff)
    ultimately have "q mod 256 = q" by simp
    then show ?thesis using f True by (simp add: q_def)
  next
    case False
    then show ?thesis using f by auto
  qed
  have ex: "decode_fraction_lost (rr_block ext s nowUs) = 51
          \<and> decode_cumulative_lost (rr_block ext s nowUs) = 2"
    if "mBaseSeqNumber s = 100 \<and> mHighestSeqNumber s = 109 \<and> mNumBuffersReceived s = 8
            \<and> mPrevExpected s = 0 \<and> mPrevNumBuffersReceived s = 0"
  proof -
    have c: "cumulativePacketLost s = 2" using that by (simp add: cumulativePacketLost_def rr_expected_def)
    have "IE = 10" "IL = 2" using that by (simp_all add: IE_def IL_def rr_expected_def)
    then have "uint (rr_fraction s) = 51" using f by simp
    then have "rr_fraction s = 51" by (simp add: word_uint_eq_iff)
    then show ?thesis
      by (simp add: decode_fraction_lost_def rr_block_fraction rr_block_cumulative c)
  qed
  have a: "bytes (fst (addReceiverReport ext s buffer nowUs)) = bytes buffer @ rr_block ext s nowUs"
    using room by (simp add: addReceiverReport_def append_block_def)
  have d: "decode_fraction_lost (rr_block ext s nowUs) = rr_fraction s"
    by (simp add: decode_fraction_lost_def rr_block_fraction)
  have c: "cumulativePacketLost s = mHighestSeqNumber s - mBaseSeqNumber s + 1 - mNumBuffersReceived s"
    by (simp add: cumulativePacketLost_def rr_expected_def)
  show ?thesis
    using a length_rr_block d f small c rr_block_cumulative ex by blast
qed

theorem receiver_report_loss_fields_witness:
  "length (bytes out64) + 32 \<le> capacity out64
   \<and> mBaseSeqNumber src_rr = 100 \<and> mHighestSeqNumber src_rr = 109
   \<and> mNumBuffersReceived src_rr = 8 \<and> mPrevExpected src_rr = 0
   \<and> mPrevNumBuffersReceived src_rr = 0
   \<and> bytes (fst (addReceiverReport ext0 src_rr out64 5000))
       = [129, 201, 0, 7, 222, 173, 190, 239, 0, 0, 0, 7, 51, 0, 0, 2, 0, 0, 0, 109,
          0, 0, 0, 0, 0, 0, 0, 0, 0, 0, 0, 0]
   \<and> rr_block ext0 src_rr 5000
       = [129, 201, 0, 7, 222, 173, 190, 239, 0, 0, 0, 7, 51, 0, 0, 2, 0, 0, 0, 109,
          0, 0, 0, 0, 0, 0, 0, 0, 0, 0, 0, 0]
   \<and> decode_fraction_lost (rr_block ext0 src_rr 5000) = 51
   \<and> decode_cumulative_lost (rr_block ext0 src_rr 5000) = 2"
proof -
  have room: "length (bytes out64) + 32 \<le> capacity out64" by (simp add: out64_def)
  have st: "mBaseSeqNumber src_rr = 100 \<and> mHighestSeqNumber src_rr = 109
      \<and> mNumBuffersReceived src_rr = 8 \<and> mPrevExpected src_rr = 0
      \<and> mPrevNumBuffersReceived src_rr = 0"
    by (simp add: src_rr_def src0_def)
  note t = receiver_report_loss_fields[OF room, of ext0 src_rr 5000]
  from t st have dec: "decode_fraction_lost (rr_block ext0 src_rr 5000) = 51
      \<and> decode_cumulative_lost (rr_block ext0 src_rr 5000) = 2" by blast
  from t have app: "bytes (fst (addReceiverReport ext0 src_rr out64 5000))
      = bytes out64 @ rr_block ext0 src_rr 5000" by blast
  have f: "rr_fraction src_rr = 51"
    using dec t by (simp add: decode_fraction_lost_def)
  have blk: "rr_block ext0 src_rr 5000
       = [129, 201, 0, 7, 222, 173, 190, 239, 0, 0, 0, 7, 51, 0, 0, 2, 0, 0, 0, 109,
          0, 0, 0, 0, 0, 0, 0, 0, 0, 0, 0, 0]"
    unfolding rr_block_def f
    by (simp add: be32_def cumulativePacketLost_def rr_expected_def rr_LSR_def rr_DLSR_def
        src_rr_def src0_def)
  show ?thesis using room st dec app blk by (simp add: out64_def)
qed

text \<open>
  The claim as stated fails when the whole interval is lost: after the packets
  100 and 109 have both been abandoned, 10 packets are expected and 10 lost, the
  quotient \<open>(10 << 8) / 10\<close> is 256, and the fraction byte of the report is 0.
\<close>

theorem receiver_report_fraction_counterexample:
  "run ext0 src0 [ProcessRTPPacket (pkt 100) 1000, ProcessRTPPacket (pkt 109) 2000,
                  NoticeAbandonBuffer 2] = Inr src_lost
   \<and> sint (intervalExpected src_lost) = 10
   \<and> sint (intervalPacketLost src_lost) = 10
   \<and> sint (push_bit 8 (intervalPacketLost src_lost)) sdiv sint (intervalExpected src_lost) = 256
   \<and> decode_fraction_lost (drop (length (bytes out64))
        (bytes (fst (addReceiverReport ext0 src_lost out64 5000)))) = 0"
proof -
  have r: "run ext0 src0 [ProcessRTPPacket (pkt 100) 1000, ProcessRTPPacket (pkt 109) 2000,
                  NoticeAbandonBuffer 2] = Inr src_lost"
    by (simp add: processRTPPacket_def queuePacket_def extend_seq_def AbsDiff_def
      onPacketReceived_def noticeAbandonBuffer_def src_lost_def
      ext0_def src0_def pkt_def Let_def)
  have e: "intervalExpected src_lost = 10" "intervalPacketLost src_lost = 10"
    by (simp_all add: intervalExpected_def intervalPacketLost_def intervalReceived_def
        rr_expected_def src_lost_def src0_def)
  have q: "sint (push_bit 8 (10 :: i64)) sdiv sint (10 :: i64) = 256"
    by (simp add: signed_divide_int_def)
  have f: "rr_fraction src_lost = 0"
    by (simp add: rr_fraction_def e sdiv64_def q)
  have "decode_fraction_lost (drop (length (bytes out64))
        (bytes (fst (addReceiverReport ext0 src_lost out64 5000)))) = 0"
    by (simp add: addReceiverReport_def append_block_def out64_def decode_fraction_lost_def
        rr_block_fraction f)
  then show ?thesis using r q by (simp add: e)
qed

section \<open>The rate limit of FIR requests\<close>

lemma sint_plus_gate:
  assumes "0 \<le> sint l" and "clock_in_range l"
  shows "sint (l + 5000000 :: i64) = sint l + 5000000"
proof -
  have "signed_take_bit 63 (sint l + 5000000) = sint l + 5000000"
    by (rule stb63) (use assms in \<open>simp_all add: clock_in_range_def\<close>)
  then show ?thesis by (simp add: sint_word_add)
qed

lemma addFIR_gate_inv:
  assumes "fir_gate_inv t1 s" and "clock_in_range nowUs"
  shows "fir_gate_inv t1 (snd (addFIR s buffer nowUs))"
proof -
  let ?l = "mLastFIRRequestUs s"
  have p: "sint (?l + 5000000) = sint ?l + 5000000"
    using sint_plus_gate assms(1) by (simp add: fir_gate_inv_def)
  show ?thesis
    using assms p
    by (auto simp add: addFIR_def Let_def fir_gate_inv_def word_sle_eq word_sless_alt)
qed

lemma step_gate_inv:
  assumes "step ext s c = Inr s'" and "fir_gate_inv t1 s" and "call_clock_in_range c"
  shows "fir_gate_inv t1 s'"
proof (cases c)
  case (ProcessRTPPacket b t)
  then obtain b' where "processRTPPacket ext s b t = Inr (b', s')"
    using assms(1) by (cases "processRTPPacket ext s b t") auto
  then show ?thesis using processRTPPacket_frame(2)[of ext s b t b' s'] assms(2)
    by (simp add: fir_gate_inv_def)
next
  case (AddTMMBR b)
  then obtain b' where "addTMMBR s b = Inr (b', s')"
    using assms(1) by (cases "addTMMBR s b") auto
  then show ?thesis using addTMMBR_frame assms(2) by auto
next
  case (AddFIR b t)
  then show ?thesis using assms addFIR_gate_inv[of t1 s t b] by auto
qed (use assms in \<open>auto simp add: timeUpdate_def byeReceived_def addReceiverReport_frame
      setSelfID_def setMinMaxBitrate_src_def noticeAbandonBuffer_def fir_gate_inv_def\<close>)

lemma run_gate_inv:
  assumes "run ext s cs = Inr s'" and "fir_gate_inv t1 s" and "list_all call_clock_in_range cs"
  shows "fir_gate_inv t1 s'"
  using assms
proof (induction cs arbitrary: s)
  case Nil
  then show ?case by simp
next
  case (Cons c cs)
  then obtain s1 where s1: "step ext s c = Inr s1" "run ext s1 cs = Inr s'"
    by (cases "step ext s c") auto
  have "fir_gate_inv t1 s1" using step_gate_inv[OF s1(1) Cons.prems(2)] Cons.prems(3) by simp
  then show ?case using Cons.IH[OF s1(2)] Cons.prems(3) by simp
qed

lemma addFIR_blocked:
  assumes "fir_gate_inv t1 s" and "sint t2 < t1 + 5000000"
  shows "addFIR s buffer t2 = (buffer, s)"
proof -
  let ?l = "mLastFIRRequestUs s"
  have p: "sint (?l + 5000000) = sint ?l + 5000000"
    using sint_plus_gate assms(1) by (simp add: fir_gate_inv_def)
  show ?thesis
    using assms p
    by (auto simp add: addFIR_def Let_def fir_gate_inv_def word_sle_eq word_sless_alt)
qed

lemma addFIR_emitted:
  assumes "bytes (fst (addFIR s buffer nowUs)) \<noteq> bytes buffer"
  shows "mLastFIRRequestUs (snd (addFIR s buffer nowUs)) = nowUs \<and> mIssueFIRRequests s
       \<and> fst (addFIR s buffer nowUs) = append_block buffer (fir_block (s\<lparr>mLastFIRRequestUs := nowUs\<rparr>))"
  using assms by (auto simp add: addFIR_def Let_def split: if_splits)

lemma length_fir_block: "length (fir_block s) = 20"
  by (simp add: fir_block_def)

text \<open>
  Claim C6. (1) With \<open>mIssueFIRRequests\<close> false, \<open>addFIR\<close> changes neither the
  buffer nor the source. (2) If a call of \<open>addFIR\<close> at clock reading \<open>t1\<close> appends
  a block, then after any further calls on the source a call of \<open>addFIR\<close> at a
  reading \<open>t2\<close> less than 5000000 microseconds away from \<open>t1\<close> (before or after
  it) leaves buffer and source as they are: of two calls less than five seconds
  apart at most one appends a block. The clock readings are those of a clock that
  is not negative and stays 5000000 below the largest \<open>int64_t\<close>. (3) With
  \<open>mIssueFIRRequests\<close> true and room for 20 bytes, a call appends the 20-byte
  block when no request was made before or the last one is at least 5000000
  microseconds old.
\<close>

theorem fir_rate_limit:
  "(\<not> mIssueFIRRequests s \<longrightarrow> addFIR s buffer nowUs = (buffer, s))
   \<and> (0 \<le> sint t1 \<and> clock_in_range t1
        \<and> \<bar>sint t2 - sint t1\<bar> < 5000000
        \<and> bytes (fst (addFIR s b1 t1)) \<noteq> bytes b1
        \<and> list_all call_clock_in_range cs
        \<and> run ext (snd (addFIR s b1 t1)) cs = Inr s2
      \<longrightarrow> addFIR s2 b2 t2 = (b2, s2))
   \<and> (mIssueFIRRequests s \<and> length (bytes buffer) + 20 \<le> capacity buffer
        \<and> (mLastFIRRequestUs s <s 0
            \<or> sint (mLastFIRRequestUs s) + 5000000 \<le> sint nowUs)
      \<longrightarrow> bytes (fst (addFIR s buffer nowUs))
            = bytes buffer @ fir_block (s\<lparr>mLastFIRRequestUs := nowUs\<rparr>)
          \<and> length (fir_block (s\<lparr>mLastFIRRequestUs := nowUs\<rparr>)) = 20
          \<and> mLastFIRRequestUs (snd (addFIR s buffer nowUs)) = nowUs)"
proof -
  have A: "\<not> mIssueFIRRequests s \<longrightarrow> addFIR s buffer nowUs = (buffer, s)"
    by (simp add: addFIR_def)
  have B: "0 \<le> sint t1 \<and> clock_in_range t1
        \<and> \<bar>sint t2 - sint t1\<bar> < 5000000
        \<and> bytes (fst (addFIR s b1 t1)) \<noteq> bytes b1
        \<and> list_all call_clock_in_range cs
        \<and> run ext (snd (addFIR s b1 t1)) cs = Inr s2
      \<longrightarrow> addFIR s2 b2 t2 = (b2, s2)"
  proof (rule impI)
    assume a: "0 \<le> sint t1 \<and> clock_in_range t1
        \<and> \<bar>sint t2 - sint t1\<bar> < 5000000
        \<and> bytes (fst (addFIR s b1 t1)) \<noteq> bytes b1
        \<and> list_all call_clock_in_range cs
        \<and> run ext (snd (addFIR s b1 t1)) cs = Inr s2"
    then have "mLastFIRRequestUs (snd (addFIR s b1 t1)) = t1" using addFIR_emitted by blast
    then have "fir_gate_inv (sint t1) (snd (addFIR s b1 t1))" using a by (simp add: fir_gate_inv_def)
    then have "fir_gate_inv (sint t1) s2" using run_gate_inv a by blast
    moreover have "sint t2 < sint t1 + 5000000" using a by linarith
    ultimately show "addFIR s2 b2 t2 = (b2, s2)" by (rule addFIR_blocked)
  qed
  have C: "mIssueFIRRequests s \<and> length (bytes buffer) + 20 \<le> capacity buffer
        \<and> (mLastFIRRequestUs s <s 0
            \<or> sint (mLastFIRRequestUs s) + 5000000 \<le> sint nowUs)
      \<longrightarrow> bytes (fst (addFIR s buffer nowUs))
            = bytes buffer @ fir_block (s\<lparr>mLastFIRRequestUs := nowUs\<rparr>)
          \<and> length (fir_block (s\<lparr>mLastFIRRequestUs := nowUs\<rparr>)) = 20
          \<and> mLastFIRRequestUs (snd (addFIR s buffer nowUs)) = nowUs"
  proof (rule impI)
    assume a: "mIssueFIRRequests s \<and> length (bytes buffer) + 20 \<le> capacity buffer
        \<and> (mLastFIRRequestUs s <s 0 \<or> sint (mLastFIRRequestUs s) + 5000000 \<le> sint nowUs)"
    have pass: "\<not> (0 \<le>s mLastFIRRequestUs s \<and> nowUs <s mLastFIRRequestUs s + 5000000)"
    proof (cases "mLastFIRRequestUs s <s 0")
      case True
      then show ?thesis by (simp add: word_sle_eq word_sless_alt)
    next
      case False
      then have n: "0 \<le> sint (mLastFIRRequestUs s)" by (simp add: word_sless_alt)
      have "sint (mLastFIRRequestUs s) + 5000000 \<le> sint nowUs" using a False by simp
      moreover have "sint nowUs < 9223372036854775808" using sint_lt[of nowUs] by simp
      ultimately have "clock_in_range (mLastFIRRequestUs s)" unfolding clock_in_range_def by linarith
      then have "sint (mLastFIRRequestUs s + 5000000) = sint (mLastFIRRequestUs s) + 5000000"
        using sint_plus_gate n by simp
      then show ?thesis using a False by (simp add: word_sless_alt)
    qed
    show "bytes (fst (addFIR s buffer nowUs))
            = bytes buffer @ fir_block (s\<lparr>mLastFIRRequestUs := nowUs\<rparr>)
          \<and> length (fir_block (s\<lparr>mLastFIRRequestUs := nowUs\<rparr>)) = 20
          \<and> mLastFIRRequestUs (snd (addFIR s buffer nowUs)) = nowUs"
      using a pass by (auto simp add: addFIR_def Let_def append_block_def length_fir_block)
  qed
  show ?thesis using A B C by (intro conjI)
qed

lemma fir_first: "addFIR src0 out64 1000000
  = (out64\<lparr>bytes := [132, 206, 0, 4, 222, 173, 190, 239, 0, 0, 0, 0, 0, 0, 0, 7, 0, 0, 0, 0]\<rparr>,
     src_fir1)"
  by (simp add: addFIR_def Let_def append_block_def fir_block_def be32_def src_fir1_def
      src0_def out64_def)

lemma fir_later: "addFIR src_fir1 out64 7000000
  = (out64\<lparr>bytes := [132, 206, 0, 4, 222, 173, 190, 239, 0, 0, 0, 0, 0, 0, 0, 7, 1, 0, 0, 0]\<rparr>,
     src_fir1\<lparr>mLastFIRRequestUs := 7000000, mNextFIRSeqNo := 2\<rparr>)"
  by (simp add: addFIR_def Let_def append_block_def fir_block_def be32_def src_fir1_def
      src0_def out64_def)

theorem fir_rate_limit_witness:
  "addFIR src0 out64 1000000
     = (out64\<lparr>bytes := [132, 206, 0, 4, 222, 173, 190, 239, 0, 0, 0, 0, 0, 0, 0, 7, 0, 0, 0, 0]\<rparr>,
        src_fir1)
   \<and> run ext0 src_fir1 [AddTMMBR out64, TimeUpdate 0 5 1500000] 
       = Inr (src_fir1\<lparr>mLastNTPTime := 5, mLastNTPTimeUpdateUs := 1500000\<rparr>)
   \<and> addFIR (src_fir1\<lparr>mLastNTPTime := 5, mLastNTPTimeUpdateUs := 1500000\<rparr>) out64 2000000
       = (out64, src_fir1\<lparr>mLastNTPTime := 5, mLastNTPTimeUpdateUs := 1500000\<rparr>)
   \<and> addFIR src_fir1 out64 7000000
       = (out64\<lparr>bytes := [132, 206, 0, 4, 222, 173, 190, 239, 0, 0, 0, 0, 0, 0, 0, 7, 1, 0, 0, 0]\<rparr>,
          src_fir1\<lparr>mLastFIRRequestUs := 7000000, mNextFIRSeqNo := 2\<rparr>)
   \<and> addFIR (src0\<lparr>mIssueFIRRequests := False\<rparr>) out64 1000000
       = (out64, src0\<lparr>mIssueFIRRequests := False\<rparr>)
   \<and> mIssueFIRRequests src_fir1 \<and> length (bytes out64) + 20 \<le> capacity out64
   \<and> sint (mLastFIRRequestUs src_fir1) + 5000000 \<le> sint (7000000 :: i64)
   \<and> bytes (fst (addFIR src_fir1 out64 7000000))
       = bytes out64 @ fir_block (src_fir1\<lparr>mLastFIRRequestUs := 7000000\<rparr>)"
proof -
  have r: "run ext0 src_fir1 [AddTMMBR out64, TimeUpdate 0 5 1500000] 
       = Inr (src_fir1\<lparr>mLastNTPTime := 5, mLastNTPTimeUpdateUs := 1500000\<rparr>)"
    by (simp add: addTMMBR_def timeUpdate_def out64_def src_fir1_def src0_def qm0_def)
  have h: "0 \<le> sint (1000000 :: i64) \<and> clock_in_range 1000000
        \<and> \<bar>sint (2000000 :: i64) - sint (1000000 :: i64)\<bar> < 5000000
        \<and> bytes (fst (addFIR src0 out64 1000000)) \<noteq> bytes out64
        \<and> list_all call_clock_in_range [AddTMMBR out64, TimeUpdate 0 5 1500000]
        \<and> run ext0 (snd (addFIR src0 out64 1000000)) [AddTMMBR out64, TimeUpdate 0 5 1500000]
            = Inr (src_fir1\<lparr>mLastNTPTime := 5, mLastNTPTimeUpdateUs := 1500000\<rparr>)"
    unfolding fir_first using r by (simp add: clock_in_range_def out64_def)
  note t = fir_rate_limit[where s = src0 and ?t1.0 = 1000000 and ?t2.0 = 2000000 and ?b1.0 = out64
      and cs = "[AddTMMBR out64, TimeUpdate 0 5 1500000]" and ext = ext0
      and ?s2.0 = "src_fir1\<lparr>mLastNTPTime := 5, mLastNTPTimeUpdateUs := 1500000\<rparr>"
      and ?b2.0 = out64]
  from t h have blocked:
    "addFIR (src_fir1\<lparr>mLastNTPTime := 5, mLastNTPTimeUpdateUs := 1500000\<rparr>) out64 2000000
       = (out64, src_fir1\<lparr>mLastNTPTime := 5, mLastNTPTimeUpdateUs := 1500000\<rparr>)" by blast
  have off: "\<not> mIssueFIRRequests (src0\<lparr>mIssueFIRRequests := False\<rparr>)" by simp
  from fir_rate_limit[where s = "src0\<lparr>mIssueFIRRequests := False\<rparr>" and buffer = out64
      and nowUs = 1000000] off
  have no: "addFIR (src0\<lparr>mIssueFIRRequests := False\<rparr>) out64 1000000
       = (out64, src0\<lparr>mIssueFIRRequests := False\<rparr>)" by blast
  have g: "mIssueFIRRequests src_fir1" "length (bytes out64) + 20 \<le> capacity out64"
      "sint (mLastFIRRequestUs src_fir1) + 5000000 \<le> sint (7000000 :: i64)"
    by (simp_all add: src_fir1_def src0_def out64_def)
  from fir_rate_limit[where s = src_fir1 and buffer = out64 and nowUs = 7000000] g
  have em: "bytes (fst (addFIR src_fir1 out64 7000000))
       = bytes out64 @ fir_block (src_fir1\<lparr>mLastFIRRequestUs := 7000000\<rparr>)" by blast
  show ?thesis using fir_first r blocked fir_later no g em by blast
qed

section \<open>Capacity checks of the report builders\<close>

lemma length_tmmbr_block: "length (tmmbr_block s e m) = 20"
  by (simp add: tmmbr_block_def tmmbr_tail_def)

text \<open>
  Claim C7, as amended. Receiver report: with room for 32 bytes the 32-byte block
  is appended, with less the call changes neither buffer nor source. FIR: with
  room for 20 bytes and both gates passed the 20-byte block is appended; with less
  room no byte is appended and the source is unchanged except that, when the gates
  passed, \<open>mLastFIRRequestUs\<close> is the time of the call. TMMBR: with room for 32
  bytes, a positive target bitrate and an exponent found by the loop, the 20-byte
  block is appended and the source unchanged; with room for less than 20 bytes the
  call changes neither buffer nor source.
\<close>

theorem report_builders_capacity:
  "(length (bytes buffer) + 32 \<le> capacity buffer \<longrightarrow>
      bytes (fst (addReceiverReport ext s buffer nowUs)) = bytes buffer @ rr_block ext s nowUs
      \<and> length (rr_block ext s nowUs) = 32)
   \<and> (length (bytes buffer) + 32 > capacity buffer \<longrightarrow>
      addReceiverReport ext s buffer nowUs = (buffer, s))
   \<and> (length (bytes buffer) + 20 \<le> capacity buffer \<and> fir_gates_pass s nowUs \<longrightarrow>
      bytes (fst (addFIR s buffer nowUs))
        = bytes buffer @ fir_block (s\<lparr>mLastFIRRequestUs := nowUs\<rparr>)
      \<and> length (fir_block (s\<lparr>mLastFIRRequestUs := nowUs\<rparr>)) = 20)
   \<and> (length (bytes buffer) + 20 > capacity buffer \<longrightarrow>
      addFIR s buffer nowUs
        = (buffer, if fir_gates_pass s nowUs then s\<lparr>mLastFIRRequestUs := nowUs\<rparr> else s))
   \<and> (length (bytes buffer) + 32 \<le> capacity buffer
        \<and> 0 <s mTargetBitrate (mQualManager s)
        \<and> tmmbr_exp (mTargetBitrate (mQualManager s)) < 32 \<longrightarrow>
      (\<exists>block. addTMMBR s buffer = Inr (buffer\<lparr>bytes := bytes buffer @ block\<rparr>, s)
          \<and> length block = 20))
   \<and> (length (bytes buffer) + 20 > capacity buffer \<longrightarrow>
      addTMMBR s buffer = Inr (buffer, s))"
proof -
  have rr1: "length (bytes buffer) + 32 \<le> capacity buffer \<longrightarrow>
      bytes (fst (addReceiverReport ext s buffer nowUs)) = bytes buffer @ rr_block ext s nowUs
      \<and> length (rr_block ext s nowUs) = 32"
    by (simp add: addReceiverReport_def append_block_def length_rr_block)
  have rr2: "length (bytes buffer) + 32 > capacity buffer \<longrightarrow>
      addReceiverReport ext s buffer nowUs = (buffer, s)"
    by (simp add: addReceiverReport_def)
  have fir1: "length (bytes buffer) + 20 \<le> capacity buffer \<and> fir_gates_pass s nowUs \<longrightarrow>
      bytes (fst (addFIR s buffer nowUs))
        = bytes buffer @ fir_block (s\<lparr>mLastFIRRequestUs := nowUs\<rparr>)
      \<and> length (fir_block (s\<lparr>mLastFIRRequestUs := nowUs\<rparr>)) = 20"
    by (auto simp add: addFIR_def Let_def fir_gates_pass_def append_block_def length_fir_block)
  have fir2: "length (bytes buffer) + 20 > capacity buffer \<longrightarrow>
      addFIR s buffer nowUs
        = (buffer, if fir_gates_pass s nowUs then s\<lparr>mLastFIRRequestUs := nowUs\<rparr> else s)"
    by (auto simp add: addFIR_def Let_def fir_gates_pass_def)
  have tm1: "length (bytes buffer) + 32 \<le> capacity buffer
        \<and> 0 <s mTargetBitrate (mQualManager s)
        \<and> tmmbr_exp (mTargetBitrate (mQualManager s)) < 32 \<longrightarrow>
      (\<exists>block. addTMMBR s buffer = Inr (buffer\<lparr>bytes := bytes buffer @ block\<rparr>, s)
          \<and> length block = 20)"
  proof (rule impI)
    assume a: "length (bytes buffer) + 32 \<le> capacity buffer
        \<and> 0 <s mTargetBitrate (mQualManager s)
        \<and> tmmbr_exp (mTargetBitrate (mQualManager s)) < 32"
    then have "\<not> mTargetBitrate (mQualManager s) \<le>s 0"
      by (simp add: word_sle_eq word_sless_alt)
    then have "addTMMBR s buffer
        = Inr (buffer\<lparr>bytes := bytes buffer @ tmmbr_block s
                 (of_nat (tmmbr_exp (mTargetBitrate (mQualManager s))))
                 (signed_drop_bit (tmmbr_exp (mTargetBitrate (mQualManager s)))
                    (mTargetBitrate (mQualManager s)))\<rparr>, s)"
      using a by (simp add: addTMMBR_def Let_def append_block_def)
    then show "\<exists>block. addTMMBR s buffer = Inr (buffer\<lparr>bytes := bytes buffer @ block\<rparr>, s)
          \<and> length block = 20"
      using length_tmmbr_block by blast
  qed
  have tm2: "length (bytes buffer) + 20 > capacity buffer \<longrightarrow>
      addTMMBR s buffer = Inr (buffer, s)"
    by (simp add: addTMMBR_def)
  show ?thesis using rr1 rr2 fir1 fir2 tm1 tm2 by (intro conjI)
qed

lemma tmmbr_exp_256000: "tmmbr_exp 256000 = 11"
  by (simp add: tmmbr_exp_def tmmbr_exp_from.simps)

theorem report_builders_capacity_witness:
  "length (bytes out64) + 32 \<le> capacity out64
   \<and> length (bytes out10) + 20 > capacity out10
   \<and> fir_gates_pass src0 1000000
   \<and> 0 <s mTargetBitrate (mQualManager src_tm)
   \<and> tmmbr_exp (mTargetBitrate (mQualManager src_tm)) < 32
   \<and> bytes (fst (addReceiverReport ext0 src_rr out64 5000)) = bytes out64 @ rr_block ext0 src_rr 5000
   \<and> addReceiverReport ext0 src_rr out10 5000 = (out10, src_rr)
   \<and> bytes (fst (addFIR src0 out64 1000000))
       = bytes out64 @ fir_block (src0\<lparr>mLastFIRRequestUs := 1000000\<rparr>)
   \<and> addFIR src0 out10 1000000 = (out10, src0\<lparr>mLastFIRRequestUs := 1000000\<rparr>)
   \<and> (\<exists>block. addTMMBR src_tm out64 = Inr (out64\<lparr>bytes := bytes out64 @ block\<rparr>, src_tm)
          \<and> length block = 20)
   \<and> addTMMBR src_tm out10 = Inr (out10, src_tm)"
proof -
  have h: "length (bytes out64) + 32 \<le> capacity out64" "length (bytes out64) + 20 \<le> capacity out64"
      "length (bytes out10) + 20 > capacity out10" "length (bytes out10) + 32 > capacity out10"
    by (simp_all add: out64_def out10_def)
  have g: "fir_gates_pass src0 1000000"
    by (simp add: fir_gates_pass_def src0_def)
  have b: "0 <s mTargetBitrate (mQualManager src_tm)"
      "tmmbr_exp (mTargetBitrate (mQualManager src_tm)) < 32"
    by (simp_all add: src_tm_def qm0_def tmmbr_exp_256000 word_sless_alt)
  note big_rr = report_builders_capacity[where buffer = out64 and s = src_rr and ext = ext0 and nowUs = 5000]
  note small_rr = report_builders_capacity[where buffer = out10 and s = src_rr and ext = ext0 and nowUs = 5000]
  note big_fir = report_builders_capacity[where buffer = out64 and s = src0 and nowUs = 1000000]
  note small_fir = report_builders_capacity[where buffer = out10 and s = src0 and nowUs = 1000000]
  note big_tm = report_builders_capacity[where buffer = out64 and s = src_tm]
  note small_tm = report_builders_capacity[where buffer = out10 and s = src_tm]
  from big_rr h have 1: "bytes (fst (addReceiverReport ext0 src_rr out64 5000))
      = bytes out64 @ rr_block ext0 src_rr 5000" by blast
  from small_rr h have 2: "addReceiverReport ext0 src_rr out10 5000 = (out10, src_rr)" by blast
  from big_fir h g have 3: "bytes (fst (addFIR src0 out64 1000000))
       = bytes out64 @ fir_block (src0\<lparr>mLastFIRRequestUs := 1000000\<rparr>)" by blast
  from small_fir h have "addFIR src0 out10 1000000
      = (out10, if fir_gates_pass src0 1000000 then src0\<lparr>mLastFIRRequestUs := 1000000\<rparr> else src0)"
    by blast
  then have 4: "addFIR src0 out10 1000000 = (out10, src0\<lparr>mLastFIRRequestUs := 1000000\<rparr>)"
    using g by simp
  from big_tm h b have 5: "\<exists>block. addTMMBR src_tm out64 = Inr (out64\<lparr>bytes := bytes out64 @ block\<rparr>, src_tm)
          \<and> length block = 20" by blast
  from small_tm h have 6: "addTMMBR src_tm out10 = Inr (out10, src_tm)" by blast
  show ?thesis using h(1,3) g b 1 2 3 4 5 6 by blast
qed

text \<open>
  The claim as stated fails for \<open>addFIR\<close>: with room for 10 bytes only, the call
  at 1000000 appends nothing but sets \<open>mLastFIRRequestUs\<close>, which was \<open>-1\<close>, to
  1000000, so that a call one second later with room for the block is refused by
  the gate.
\<close>

theorem fir_small_buffer_counterexample:
  "length (bytes out10) + 20 > capacity out10
   \<and> mLastFIRRequestUs src0 = - 1
   \<and> addFIR src0 out10 1000000 = (out10, src0\<lparr>mLastFIRRequestUs := 1000000\<rparr>)
   \<and> src0\<lparr>mLastFIRRequestUs := 1000000\<rparr> \<noteq> src0
   \<and> addFIR (src0\<lparr>mLastFIRRequestUs := 1000000\<rparr>) out64 2000000
       = (out64, src0\<lparr>mLastFIRRequestUs := 1000000\<rparr>)"
proof -
  have "mLastFIRRequestUs (src0\<lparr>mLastFIRRequestUs := 1000000\<rparr>) \<noteq> mLastFIRRequestUs src0"
    by (simp add: src0_def)
  then have "src0\<lparr>mLastFIRRequestUs := 1000000\<rparr> \<noteq> src0" by metis
  moreover have "addFIR src0 out10 1000000 = (out10, src0\<lparr>mLastFIRRequestUs := 1000000\<rparr>)"
    by (simp add: addFIR_def Let_def out10_def src0_def)
  moreover have "addFIR (src0\<lparr>mLastFIRRequestUs := 1000000\<rparr>) out64 2000000
       = (out64, src0\<lparr>mLastFIRRequestUs := 1000000\<rparr>)"
    by (simp add: addFIR_def Let_def src0_def word_sle_eq word_sless_alt)
  moreover have "length (bytes out10) + 20 > capacity out10" "mLastFIRRequestUs src0 = - 1"
    by (simp_all add: out10_def src0_def)
  ultimately show ?thesis by blast
qed

text \<open>
  \<open>addTMMBR\<close> compares against 32, the size of the receiver report, and not against
  the 20 bytes it writes: with room for 24 bytes it appends nothing.
\<close>

lemma addTMMBR_room_for_24:
  "length (bytes out24) + 20 \<le> capacity out24 \<and> addTMMBR src_tm out24 = Inr (out24, src_tm)"
  by (simp add: addTMMBR_def out24_def)

section \<open>The TMMBR exponent and mantissa\<close>
























section \<open>The last sender report field\<close>

lemma and_ff: "(y :: u32) AND 0xff = take_bit 8 y"
  by (simp add: take_bit_eq_mask mask_eq_exp_minus_1)

lemma decode_be32_bits:
  "push_bit 24 (ucast (ucast (drop_bit 24 x) :: u8)) OR
   push_bit 16 (ucast (ucast (drop_bit 16 x AND 0xff) :: u8)) OR
   push_bit 8 (ucast (ucast (drop_bit 8 x AND 0xff) :: u8)) OR
   ucast (ucast (x AND 0xff) :: u8) = (x :: u32)"
  unfolding and_ff
proof (rule bit_word_eqI)
  fix n assume "n < LENGTH(32)"
  then consider "n < 8" | "8 \<le> n" "n < 16" | "16 \<le> n" "n < 24" | "24 \<le> n" "n < 32" by fastforce
  then show "bit (push_bit 24 (ucast (ucast (drop_bit 24 x) :: u8)) OR
   push_bit 16 (ucast (ucast (take_bit 8 (drop_bit 16 x)) :: u8)) OR
   push_bit 8 (ucast (ucast (take_bit 8 (drop_bit 8 x)) :: u8)) OR
   ucast (ucast (take_bit 8 x) :: u8) :: u32) n = bit x n"
    by cases (auto simp add: bit_simps)
qed

lemma nth4_all: "[a, b, c, d] ! 0 = a" "[a, b, c, d] ! 1 = b" "[a, b, c, d] ! 2 = c"
    "[a, b, c, d] ! 3 = d"
  by simp_all

lemma decode_be32_be32: "decode_be32 (be32 x) = x"
  unfolding decode_be32_def be32_def by (simp only: nth4_all decode_be32_bits)

lemma lsr_middle:
  "(ucast (drop_bit 16 (ntp :: u64) AND 0xffffffff) :: u32) = ucast (drop_bit 16 ntp)"
proof -
  have "(0xffffffff :: u64) = mask 32" by (simp add: mask_eq_exp_minus_1)
  then have "drop_bit 16 ntp AND 0xffffffff = take_bit 32 (drop_bit 16 ntp)"
    by (simp only: take_bit_eq_mask)
  moreover have "(ucast (take_bit 32 (drop_bit 16 ntp)) :: u32) = ucast (drop_bit 16 ntp)"
    by (rule bit_word_eqI) (auto simp add: bit_simps)
  ultimately show ?thesis by simp
qed

lemma rr_LSR_middle: "rr_LSR s = ucast (drop_bit 16 (mLastNTPTime s))"
  by (simp add: rr_LSR_def lsr_middle)

lemma lsr_field_rr_block: "lsr_field (rr_block ext s nowUs) = be32 (rr_LSR s)"
  by (simp add: lsr_field_def rr_block_def be32_def)

lemma step_last_ntp:
  assumes "step ext s c = Inr s'"
  shows "mLastNTPTime s' = last_ntp (mLastNTPTime s) [c]"
proof (cases c)
  case (ProcessRTPPacket b t)
  then obtain b' where "processRTPPacket ext s b t = Inr (b', s')"
    using assms by (cases "processRTPPacket ext s b t") auto
  then show ?thesis using processRTPPacket_frame(1)[of ext s b t b' s'] ProcessRTPPacket by simp
next
  case (AddTMMBR b)
  then obtain b' where "addTMMBR s b = Inr (b', s')"
    using assms by (cases "addTMMBR s b") auto
  then show ?thesis using addTMMBR_frame AddTMMBR by auto
qed (use assms in \<open>auto simp add: timeUpdate_def byeReceived_def addFIR_frame addReceiverReport_frame
      setSelfID_def setMinMaxBitrate_src_def noticeAbandonBuffer_def\<close>)

lemma last_ntp_Cons: "last_ntp n (c # cs) = last_ntp (last_ntp n [c]) cs"
  by (cases c) simp_all

lemma run_last_ntp:
  assumes "run ext s cs = Inr s'"
  shows "mLastNTPTime s' = last_ntp (mLastNTPTime s) cs"
  using assms
proof (induction cs arbitrary: s)
  case Nil
  then show ?case by simp
next
  case (Cons c cs)
  then obtain s1 where s1: "step ext s c = Inr s1" "run ext s1 cs = Inr s'"
    by (cases "step ext s c") auto
  have "mLastNTPTime s' = last_ntp (mLastNTPTime s1) cs" using Cons.IH[OF s1(2)] .
  then show ?case using step_last_ntp[OF s1(1)] last_ntp_Cons[of "mLastNTPTime s" c cs] by simp
qed

text \<open>
  Claim C9, as amended. After any calls \<open>cs\<close> on a freshly constructed source, a
  receiver report appended to a buffer with room for it carries in bytes 24 to 27,
  most significant byte first, bits 16 to 47 of the NTP time of the last
  \<open>timeUpdate\<close> among \<open>cs\<close> (the middle 32 of its 64 bits), and zero when there
  was none.
\<close>

theorem last_sender_report_field:
  assumes "new_ARTPSource ident desc rawSupports initCheck seed qm self = Inr s0"
    and "run ext s0 cs = Inr s"
    and "length (bytes buffer) + 32 \<le> capacity buffer"
  shows "bytes (fst (addReceiverReport ext s buffer nowUs)) = bytes buffer @ rr_block ext s nowUs
       \<and> lsr_field (rr_block ext s nowUs) = be32 (ucast (drop_bit 16 (last_ntp 0 cs)))
       \<and> decode_be32 (lsr_field (rr_block ext s nowUs)) = ucast (drop_bit 16 (last_ntp 0 cs))
       \<and> (last_ntp 0 cs = 0 \<longrightarrow> lsr_field (rr_block ext s nowUs) = [0, 0, 0, 0])"
proof -
  have "mLastNTPTime s0 = 0"
    using assms(1) by (auto simp add: new_ARTPSource_def split: sum.splits prod.splits)
  then have n: "mLastNTPTime s = last_ntp 0 cs" using run_last_ntp[OF assms(2)] by simp
  have a: "bytes (fst (addReceiverReport ext s buffer nowUs)) = bytes buffer @ rr_block ext s nowUs"
    using assms(3) by (simp add: addReceiverReport_def append_block_def)
  have l: "lsr_field (rr_block ext s nowUs) = be32 (ucast (drop_bit 16 (last_ntp 0 cs)))"
    by (simp only: lsr_field_rr_block rr_LSR_middle n)
  have d: "decode_be32 (lsr_field (rr_block ext s nowUs)) = ucast (drop_bit 16 (last_ntp 0 cs))"
    by (simp only: l decode_be32_be32)
  have z: "last_ntp 0 cs = 0 \<longrightarrow> lsr_field (rr_block ext s nowUs) = [0, 0, 0, 0]"
    unfolding l by (simp add: be32_def)
  show ?thesis by (intro conjI a l d z)
qed

lemma run_ntp:
  "run ext0 src0 [TimeUpdate 0 0x1111111111111111 500, AddFIR out64 700,
                  TimeUpdate 90000 0x0123456789ABCDEF 1000] = Inr (src_ntp\<lparr>mLastFIRRequestUs := 700, mNextFIRSeqNo := 1\<rparr>)"
  by (simp add: timeUpdate_def addFIR_def Let_def src_ntp_def src0_def out64_def)

theorem last_sender_report_field_witness:
  "new_ARTPSource 7 ''H264/90000'' False True 0 qm0 0xdeadbeef = Inr src0
   \<and> run ext0 src0 [TimeUpdate 0 0x1111111111111111 500, AddFIR out64 700,
                    TimeUpdate 90000 0x0123456789ABCDEF 1000]
       = Inr (src_ntp\<lparr>mLastFIRRequestUs := 700, mNextFIRSeqNo := 1\<rparr>)
   \<and> length (bytes out64) + 32 \<le> capacity out64
   \<and> lsr_field (rr_block ext0 (src_ntp\<lparr>mLastFIRRequestUs := 700, mNextFIRSeqNo := 1\<rparr>) 5000)
       = [0x45, 0x67, 0x89, 0xAB]
   \<and> decode_be32 (lsr_field (rr_block ext0 (src_ntp\<lparr>mLastFIRRequestUs := 700, mNextFIRSeqNo := 1\<rparr>) 5000))
       = 0x456789AB"
proof -
  have room: "length (bytes out64) + 32 \<le> capacity out64" by (simp add: out64_def)
  note t = last_sender_report_field[OF new_src0 run_ntp room, of 5000]
  have n: "last_ntp 0 [TimeUpdate 0 0x1111111111111111 500, AddFIR out64 700,
                  TimeUpdate 90000 0x0123456789ABCDEF 1000] = 0x0123456789ABCDEF" by simp
  have m: "(ucast (drop_bit 16 (0x0123456789ABCDEF :: u64)) :: u32) = 0x456789AB" by simp
  have b: "be32 0x456789AB = [0x45, 0x67, 0x89, 0xAB]" by (simp add: be32_def)
  have l: "lsr_field (rr_block ext0 (src_ntp\<lparr>mLastFIRRequestUs := 700, mNextFIRSeqNo := 1\<rparr>) 5000)
       = [0x45, 0x67, 0x89, 0xAB]"
    using t[THEN conjunct2, THEN conjunct1] unfolding n m b .
  have d: "decode_be32 (lsr_field (rr_block ext0 (src_ntp\<lparr>mLastFIRRequestUs := 700, mNextFIRSeqNo := 1\<rparr>) 5000))
       = 0x456789AB"
    using t[THEN conjunct2, THEN conjunct2, THEN conjunct1] unfolding n m .
  show ?thesis by (intro conjI new_src0 run_ntp room l d)
qed

text \<open>
  The claim as stated fails: for the NTP time \<open>0x0123456789ABCDEF\<close> the top 32
  bits are \<open>0x01234567\<close>, and the field carries \<open>0x456789AB\<close>.
\<close>

theorem last_sender_report_counterexample:
  "run ext0 src0 [TimeUpdate 90000 0x0123456789ABCDEF 1000] = Inr src_ntp
   \<and> lsr_field (drop (length (bytes out64)) (bytes (fst (addReceiverReport ext0 src_ntp out64 5000))))
       = [0x45, 0x67, 0x89, 0xAB]
   \<and> be32 (ucast (drop_bit 32 (0x0123456789ABCDEF :: u64))) = [0x01, 0x23, 0x45, 0x67]
   \<and> [0x45, 0x67, 0x89, 0xAB] \<noteq> [0x01, 0x23, 0x45, 0x67 :: u8]"
proof -
  have r: "run ext0 src0 [TimeUpdate 90000 0x0123456789ABCDEF 1000] = Inr src_ntp"
    by (simp add: timeUpdate_def src_ntp_def)
  have "rr_LSR src_ntp = 0x456789AB" by (simp add: rr_LSR_def src_ntp_def)
  then have "lsr_field (rr_block ext0 src_ntp 5000) = [0x45, 0x67, 0x89, 0xAB]"
    by (simp add: lsr_field_rr_block be32_def)
  then have l: "lsr_field (drop (length (bytes out64)) (bytes (fst (addReceiverReport ext0 src_ntp out64 5000))))
       = [0x45, 0x67, 0x89, 0xAB]"
    by (simp add: addReceiverReport_def append_block_def out64_def)
  have t: "be32 (ucast (drop_bit 32 (0x0123456789ABCDEF :: u64))) = [0x01, 0x23, 0x45, 0x67]"
    by (simp add: be32_def)
  have ne: "[0x45, 0x67, 0x89, 0xAB] \<noteq> [0x01, 0x23, 0x45, 0x67 :: u8]" by simp
  show ?thesis by (intro conjI r l t ne)
qed

end
